theory Spec2Isabelle
  imports Complex_Main
begin

text \<open>
  The knowledge-graph platform keeps a Neo4j property graph and serves it through a
  GraphQL server.  The sources hold the GraphQL server with its four Cypher queries
  (\<^verbatim>\<open>api/graphql/index.js\<close>), the schema and seed scripts, the first migration and
  the backup and restore scripts; these are modelled from their text.  The ingestion
  and retrieval engines that the specification describes are listed by the documents
  but are not among the sources; they are modelled from the specification, each
  definition saying so.
\<close>


section \<open>The property graph held by the store\<close>

text \<open>
  The store is a Neo4j property graph.  A node carries labels and properties, a
  relationship carries a type, its two end nodes and properties.  Nodes and
  relationships have an identity of their own (\<open>nid\<close>, \<open>rid\<close>): two relationships
  with the same ends and type are still two relationships.  Property values are the
  ones that occur in \<^verbatim>\<open>schema/seed-data.cypher\<close> and in the GraphQL type definitions
  of \<^verbatim>\<open>api/graphql/index.js\<close>.
\<close>

datatype pval =
    PStr string
  | PInt int
  | PReal real
  | PDateTime string
  | PList "pval list"

type_synonym props = "(string \<times> pval) list"

record node =
  nid :: nat
  labels :: "string list"
  nprops :: props

record rel =
  rid :: nat
  rtype :: string
  src :: nat
  tgt :: nat
  rprops :: props

record graph =
  nodes :: "node list"
  rels :: "rel list"

text \<open>A property that is absent reads as null; null is \<open>None\<close> here.\<close>

definition prop_of :: "props \<Rightarrow> string \<Rightarrow> pval option" where
  "prop_of ps k = map_of ps k"

definition node_of :: "graph \<Rightarrow> nat \<Rightarrow> node option" where
  "node_of g i = find (\<lambda>n. nid n = i) (nodes g)"

definition node_prop :: "graph \<Rightarrow> nat \<Rightarrow> string \<Rightarrow> pval option" where
  "node_prop g i k = (case node_of g i of None \<Rightarrow> None | Some n \<Rightarrow> prop_of (nprops n) k)"


section \<open>Cypher clauses of the GraphQL queries\<close>

text \<open>
  A clause transforms a table: the graph together with the rows bound so far.  A row is
  a nested pair, the variable bound last first; a query starts from the single empty
  row.  Reading clauses hand the graph on as it is.
\<close>

type_synonym 'r tbl = "graph \<times> 'r list"

text \<open>\<^verbatim>\<open>(v:Label {k: x, ...})\<close>: the node has the label and every listed property with
  that value.\<close>

definition node_matches :: "string \<Rightarrow> props \<Rightarrow> node \<Rightarrow> bool" where
  "node_matches lbl ps n \<longleftrightarrow>
     lbl \<in> set (labels n) \<and> list_all (\<lambda>(k, x). prop_of (nprops n) k = Some x) ps"

definition cy_match_node :: "string \<Rightarrow> props \<Rightarrow> 'r tbl \<Rightarrow> (nat \<times> 'r) tbl" where
  "cy_match_node lbl ps = (\<lambda>(g, rows).
     (g, concat (map (\<lambda>row. map (\<lambda>n. (nid n, row)) (filter (node_matches lbl ps) (nodes g))) rows)))"

definition cy_where :: "(graph \<Rightarrow> 'r \<Rightarrow> bool) \<Rightarrow> 'r tbl \<Rightarrow> 'r tbl" where
  "cy_where P = (\<lambda>(g, rows). (g, filter (P g) rows))"

definition cy_unwind :: "('r \<Rightarrow> 'a list) \<Rightarrow> 'r tbl \<Rightarrow> ('a \<times> 'r) tbl" where
  "cy_unwind f = (\<lambda>(g, rows). (g, concat (map (\<lambda>row. map (\<lambda>x. (x, row)) (f row)) rows)))"

definition cy_return :: "('r \<Rightarrow> 'a) \<Rightarrow> 'r tbl \<Rightarrow> graph \<times> 'a list" where
  "cy_return f = (\<lambda>(g, rows). (g, map f rows))"

definition cy_return_distinct :: "('r \<Rightarrow> 'a) \<Rightarrow> 'r tbl \<Rightarrow> graph \<times> 'a list" where
  "cy_return_distinct f = (\<lambda>(g, rows). (g, remdups (map f rows)))"

text \<open>
  \<^verbatim>\<open>-[:T*1..k]->()\<close>: every way to leave node \<open>a\<close> along one to \<open>k\<close> relationships of
  type \<open>ty\<close>, each following the direction of the arrow, no relationship used twice in
  one path (Cypher matches a relationship at most once per pattern).  \<open>used\<close> is the
  path walked so far.
\<close>

fun expand :: "rel list \<Rightarrow> string \<Rightarrow> nat \<Rightarrow> nat \<Rightarrow> rel list \<Rightarrow> rel list list" where
  "expand E ty 0 a used = []"
| "expand E ty (Suc k) a used =
     concat (map (\<lambda>r. (used @ [r]) # expand E ty k (tgt r) (used @ [r]))
                 (filter (\<lambda>r. rtype r = ty \<and> src r = a \<and> r \<notin> set used) E))"

definition var_length :: "graph \<Rightarrow> string \<Rightarrow> nat \<Rightarrow> nat \<Rightarrow> nat \<Rightarrow> rel list list" where
  "var_length g ty lo hi start = filter (\<lambda>p. lo \<le> length p) (expand (rels g) ty hi start [])"

text \<open>A path value: its first node and its relationships.  \<^verbatim>\<open>nodes(path)\<close> lists the
  nodes along it, the first node included.\<close>

type_synonym path = "nat \<times> rel list"

definition path_nodes :: "path \<Rightarrow> nat list" where
  "path_nodes p = fst p # map tgt (snd p)"

text \<open>\<^verbatim>\<open>MATCH path = (p:Label {..})-[:T*lo..hi]->()\<close> binds \<open>p\<close> and \<open>path\<close>.\<close>

definition cy_match_path ::
  "string \<Rightarrow> props \<Rightarrow> string \<Rightarrow> nat \<Rightarrow> nat \<Rightarrow> 'r tbl \<Rightarrow> (path \<times> nat \<times> 'r) tbl" where
  "cy_match_path lbl ps ty lo hi = (\<lambda>(g, rows).
     (g, concat (map (\<lambda>(p, row). map (\<lambda>rs. ((p, rs), p, row)) (var_length g ty lo hi p))
                     (snd (cy_match_node lbl ps (g, rows))))))"

definition start_tbl :: "graph \<Rightarrow> unit tbl" where
  "start_tbl g = (g, [()])"


subsection \<open>The four custom queries of \<^verbatim>\<open>api/graphql/index.js\<close>\<close>

text \<open>
  \<^verbatim>\<open>MATCH (p:Project {status: $status}) RETURN p\<close>
\<close>

definition projectsByStatus :: "string \<Rightarrow> graph \<Rightarrow> graph \<times> nat list" where
  "projectsByStatus status g =
     cy_return fst (cy_match_node ''Project'' [(''status'', PStr status)] (start_tbl g))"

text \<open>
  \<^verbatim>\<open>MATCH (t:Tool) WHERE t.criticality = 'critical' RETURN t\<close>
\<close>

definition criticalInfrastructure :: "graph \<Rightarrow> graph \<times> nat list" where
  "criticalInfrastructure g =
     cy_return fst
       (cy_where (\<lambda>g (t, _). node_prop g t ''criticality'' = Some (PStr ''critical''))
         (cy_match_node ''Tool'' [] (start_tbl g)))"

text \<open>
  \<^verbatim>\<open>MATCH (p:Pattern) WHERE $tag IN p.tags RETURN p\<close>
\<close>

definition patternsByTag :: "string \<Rightarrow> graph \<Rightarrow> graph \<times> nat list" where
  "patternsByTag tag g =
     cy_return fst
       (cy_where (\<lambda>g (p, _). case node_prop g p ''tags'' of
                                Some (PList xs) \<Rightarrow> PStr tag \<in> set xs
                              | _ \<Rightarrow> False)
         (cy_match_node ''Pattern'' [] (start_tbl g)))"

text \<open>
  \<^verbatim>\<open>MATCH path = (p:Project {id: $projectId})-[:DEPENDS_ON_CRITICAL*1..3]->()
  UNWIND nodes(path) AS node
  RETURN DISTINCT node\<close>
\<close>

definition projectDependencyGraph :: "string \<Rightarrow> graph \<Rightarrow> graph \<times> nat list" where
  "projectDependencyGraph projectId g =
     cy_return_distinct fst
       (cy_unwind (\<lambda>(path, _). path_nodes path)
         (cy_match_path ''Project'' [(''id'', PStr projectId)] ''DEPENDS_ON_CRITICAL'' 1 3
           (start_tbl g)))"



section \<open>Writing clauses and the seed script\<close>

text \<open>
  \<^verbatim>\<open>CREATE\<close> always adds: a node for every row, or a relationship for every row
  between the nodes the row binds.  Nothing is ever deleted by the scripts of the
  repository, so the next free identity is the number of nodes (relationships) so far.
\<close>

definition fresh_nid :: "graph \<Rightarrow> nat" where
  "fresh_nid g = length (nodes g)"


definition add_node :: "string list \<Rightarrow> props \<Rightarrow> graph \<Rightarrow> nat \<times> graph" where
  "add_node ls ps g =
     (fresh_nid g, g\<lparr>nodes := nodes g @ [\<lparr>nid = fresh_nid g, labels = ls, nprops = ps\<rparr>]\<rparr>)"


fun create_nodes :: "string list \<Rightarrow> props \<Rightarrow> 'r list \<Rightarrow> graph \<Rightarrow> (nat \<times> 'r) tbl" where
  "create_nodes ls ps [] g = (g, [])"
| "create_nodes ls ps (row # rows) g =
     (case add_node ls ps g of (i, g1) \<Rightarrow>
        case create_nodes ls ps rows g1 of (g2, out) \<Rightarrow> (g2, (i, row) # out))"

definition cy_create_node :: "string list \<Rightarrow> props \<Rightarrow> 'r tbl \<Rightarrow> (nat \<times> 'r) tbl" where
  "cy_create_node ls ps = (\<lambda>(g, rows). create_nodes ls ps rows g)"



definition create_stmt :: "string list \<Rightarrow> props \<Rightarrow> graph \<Rightarrow> graph" where
  "create_stmt ls ps g = fst (cy_create_node ls ps (start_tbl g))"






section \<open>Paths, as the description of the dependency query has them\<close>









section \<open>The restore script \<^verbatim>\<open>ops/restore.sh\<close>\<close>

text \<open>
  The script runs under \<^verbatim>\<open>set -e\<close>.  What it does to the machine is the sequence of
  commands it runs; what the machine answers (the text on standard input, whether
  \<^verbatim>\<open>echo\<close> can write its message, whether a directory exists, the exit status of an
  external command) is the environment.  The messages of \<^verbatim>\<open>echo\<close> are given without
  their pictographs; the status of an \<^verbatim>\<open>echo\<close> is 0 when standard output takes the
  message and not 0 otherwise (1 on a write error: closed, full).
\<close>

record shell_env =
  stdin :: string
  echo_status :: "string \<Rightarrow> nat"
  ls_status :: nat
  cd_ok :: bool
  down_status :: nat
  rm_status :: nat
  tar_status :: nat
  up_status :: nat

text \<open>A command of the trace; the ones that act on files or containers carry the
  working directory they run in (\<open>''.''\<close> is the directory the script was started in).\<close>

datatype action =
    Echo string
  | Ls_backups
  | Read_confirm
  | Cd string
  | Compose_down string
  | Rm_rf string string
  | Tar_extract string string
  | Compose_up string

fun mutating :: "action \<Rightarrow> bool" where
  "mutating (Compose_down _) = True"
| "mutating (Rm_rf _ _) = True"
| "mutating (Tar_extract _ _) = True"
| "mutating (Compose_up _) = True"
| "mutating _ = False"

text \<open>
  \<^verbatim>\<open>set -e\<close>: commands run one after the other, each with the status the environment
  gives it; the first one whose status is not 0 ends the script with that status.  The
  result is the exit status and the commands that were run, the failing one included.
\<close>

fun errexit :: "(action \<times> nat) list \<Rightarrow> nat \<times> action list" where
  "errexit [] = (0, [])"
| "errexit ((a, st) # cs) =
     (if st \<noteq> 0 then (st, [a]) else (case errexit cs of (s, t) \<Rightarrow> (s, a # t)))"

subsection \<open>The \<^verbatim>\<open>read\<close> builtin of bash\<close>

text \<open>
  \<^verbatim>\<open>read -p "Continue? (yes/no): " confirm\<close> is bash's builtin with one variable, no
  \<^verbatim>\<open>-r\<close>, the default \<^verbatim>\<open>IFS\<close> (bash sets it at start-up, whatever the environment
  holds) and newline as the delimiter.  The definitions follow the steps of bash 5.2 in
  a locale with one byte per character (\<^verbatim>\<open>C\<close>, \<^verbatim>\<open>POSIX\<close>), where a \<open>char\<close> is a
  byte; for input in ASCII every locale gives the same.

  First the line is collected in a buffer.  A backslash marks the next byte with
  \<open>CTLESC\<close> and backslash-newline continues the line; an unescaped NUL is skipped; the
  bytes \<open>CTLESC\<close> and \<open>CTLNUL\<close> of the input are marked as well.  The first unescaped
  newline ends the line (status 0); when the input ends before, the status is 1 and
  the bytes collected are assigned all the same.
\<close>

definition CTLESC :: char where
  "CTLESC = CHR 0x01"

definition CTLNUL :: char where
  "CTLNUL = CHR 0x7F"

definition spctabnl :: "char \<Rightarrow> bool" where
  "spctabnl c \<longleftrightarrow> c = CHR '' '' \<or> c = CHR 0x09 \<or> c = CHR 0x0A"

fun read_input :: "string \<Rightarrow> bool \<times> string" where
  "read_input [] = (False, [])"
| "read_input (c # cs) =
     (if c = CHR 0x5C then
        (case cs of
           [] \<Rightarrow> (False, [CTLESC])
         | d # ds \<Rightarrow>
             if d = CHR 0x0A then read_input ds
             else (case read_input ds of (ok, buf) \<Rightarrow> (ok, CTLESC # d # buf)))
      else if c = CHR 0x0A then (True, [])
      else if c = CHR 0x00 then read_input cs
      else if c = CTLESC \<or> c = CTLNUL then
        (case read_input cs of (ok, buf) \<Rightarrow> (ok, CTLESC # c # buf))
      else (case read_input cs of (ok, buf) \<Rightarrow> (ok, c # buf)))"

text \<open>The buffer is a C string: it ends at the first NUL it holds, which can only be
  an escaped one.\<close>

definition c_string :: "string \<Rightarrow> string" where
  "c_string buf = takeWhile (\<lambda>c. c \<noteq> CHR 0x00) buf"

text \<open>\<^verbatim>\<open>string_extract_verbatim\<close>: the first word, up to the first unmarked
  \<^verbatim>\<open>IFS\<close> character; the result is the word and what follows it.\<close>

fun string_extract_verbatim :: "string \<Rightarrow> string \<times> string" where
  "string_extract_verbatim [] = ([], [])"
| "string_extract_verbatim (c # cs) =
     (if c = CTLESC then
        (case cs of
           [] \<Rightarrow> ([c], [])
         | d # ds \<Rightarrow> (case string_extract_verbatim ds of (w, r) \<Rightarrow> (c # d # w, r)))
      else if spctabnl c then ([], c # cs)
      else (case string_extract_verbatim cs of (w, r) \<Rightarrow> (c # w, r)))"

text \<open>\<^verbatim>\<open>get_word_from_string\<close>: the first word and the rest of the line after the
  separator and the \<^verbatim>\<open>IFS\<close> whitespace that follows it.\<close>

definition get_word_from_string :: "string \<Rightarrow> string \<times> string" where
  "get_word_from_string s =
     (case string_extract_verbatim s of (w, r) \<Rightarrow> (w, dropWhile spctabnl (drop 1 r)))"

text \<open>
  \<^verbatim>\<open>strip_trailing_ifs_whitespace\<close> walks back from the end of the string, over
  \<^verbatim>\<open>IFS\<close> whitespace and over a \<open>CTLESC\<close> byte that stands before whitespace, and
  never past the first character.  The walk is written on the reversed string; the
  first argument of \<open>strip_back\<close> is the character after the one looked at (NUL after
  the last).
\<close>

fun strip_back :: "char \<Rightarrow> string \<Rightarrow> string" where
  "strip_back nxt [] = []"
| "strip_back nxt [c] = [c]"
| "strip_back nxt (c # d # r) =
     (if spctabnl c \<or> (c = CTLESC \<and> spctabnl nxt) then strip_back c (d # r) else c # d # r)"

definition strip_trailing_ifs_whitespace :: "string \<Rightarrow> string" where
  "strip_trailing_ifs_whitespace s = rev (strip_back (CHR 0x00) (rev s))"

text \<open>\<^verbatim>\<open>dequote_string\<close> removes the marks: a lone \<open>CTLNUL\<close> is the empty string, a
  lone \<open>CTLESC\<close> stays, otherwise each \<open>CTLESC\<close> goes and the byte after it is kept; a
  \<open>CTLESC\<close> at the end goes.\<close>

fun remove_ctlesc :: "string \<Rightarrow> string" where
  "remove_ctlesc [] = []"
| "remove_ctlesc (c # cs) =
     (if c = CTLESC then (case cs of [] \<Rightarrow> [] | d # ds \<Rightarrow> d # remove_ctlesc ds)
      else c # remove_ctlesc cs)"

definition dequote_string :: "string \<Rightarrow> string" where
  "dequote_string s =
     (if s = [CTLNUL] then [] else if s = [CTLESC] then [CTLESC] else remove_ctlesc s)"

text \<open>
  The value of the last (here the only) variable: leading \<^verbatim>\<open>IFS\<close> whitespace is
  dropped; when the line holds one word, the value is that word; when it holds more,
  the value is the whole line with its trailing whitespace stripped.
\<close>

definition last_variable :: "string \<Rightarrow> string" where
  "last_variable s =
     (let t1 = dropWhile spctabnl s in
      if t1 = [] then []
      else (case get_word_from_string t1 of
              (w, rest) \<Rightarrow>
                dequote_string (if rest = [] then w else strip_trailing_ifs_whitespace t1)))"

text \<open>The builtin: its exit status and the value of \<^verbatim>\<open>$confirm\<close>.\<close>

definition bash_read :: "string \<Rightarrow> nat \<times> string" where
  "bash_read inp =
     (case read_input inp of
        (ok, buf) \<Rightarrow> (if ok then 0 else 1, last_variable (c_string buf)))"

subsection \<open>The script\<close>

text \<open>\<^verbatim>\<open>$1\<close>: the first argument, empty when there is none.\<close>

definition arg1 :: "string list \<Rightarrow> string" where
  "arg1 args = (case args of [] \<Rightarrow> [] | a # _ \<Rightarrow> a)"

definition warning :: string where
  "warning = ''WARNING: This will replace all current graph data!''"

text \<open>
  The part after the confirmation.  \<^verbatim>\<open>cd infra/graph && docker compose down\<close>: when
  \<^verbatim>\<open>cd\<close> fails the list fails, but \<^verbatim>\<open>set -e\<close> ends the script only for the last
  command of an \<^verbatim>\<open>&&\<close> list, so the script goes on in the old directory (the \<^verbatim>\<open>cd\<close>
  is listed with status 0 for that reason).  Every other command that fails ends the
  script with its status.
\<close>

definition restore_steps :: "string \<Rightarrow> shell_env \<Rightarrow> nat \<times> action list" where
  "restore_steps backup_file env =
     (let cwd = (if cd_ok env then ''infra/graph'' else ''.'')
      in errexit
           ([(Echo ''Stopping Neo4j...'', echo_status env ''Stopping Neo4j...''),
             (Cd ''infra/graph'', 0)]
            @ (if cd_ok env then [(Compose_down cwd, down_status env)] else [])
            @ [(Echo ''Removing existing data...'', echo_status env ''Removing existing data...''),
               (Rm_rf cwd ''infra/graph/neo4j/data/*'', rm_status env),
               (Echo ''Restoring from backup...'', echo_status env ''Restoring from backup...''),
               (Tar_extract cwd backup_file, tar_status env),
               (Echo ''Starting Neo4j...'', echo_status env ''Starting Neo4j...''),
               (Compose_up cwd, up_status env),
               (Echo (''Restore complete from: '' @ backup_file),
                echo_status env (''Restore complete from: '' @ backup_file))]))"

text \<open>
  The part without an argument: \<^verbatim>\<open>ls ... || echo ...\<close> is an \<^verbatim>\<open>||\<close> list, a failing
  \<^verbatim>\<open>ls\<close> does not end the script; then \<^verbatim>\<open>exit 1\<close>.
\<close>

definition usage :: "shell_env \<Rightarrow> nat \<times> action list" where
  "usage env =
     (case errexit
             ([(Echo ''Usage: ./restore.sh <backup-file.tar.gz>'',
                echo_status env ''Usage: ./restore.sh <backup-file.tar.gz>''),
               (Echo ''Available backups:'', echo_status env ''Available backups:''),
               (Ls_backups, 0)]
              @ (if ls_status env \<noteq> 0
                 then [(Echo ''  No backups found'', echo_status env ''  No backups found'')]
                 else [])) of
        (st, t) \<Rightarrow> (if st \<noteq> 0 then st else 1, t))"

text \<open>
  The whole script: exit status and the commands run.  The \<^verbatim>\<open>read\<close> builtin is the
  first argument: it gives, for the text on standard input, its exit status and the
  value of \<^verbatim>\<open>$confirm\<close>.  A failing \<^verbatim>\<open>read\<close> ends the script with the status of
  \<^verbatim>\<open>read\<close> (1 at the end of the input, above 128 after a timeout).  In
  \<^verbatim>\<open>[ "$confirm" != "yes" ] && exit 0\<close> the test fails when the value is \<^verbatim>\<open>yes\<close>; it
  is not the last command of its list and the script goes on.
\<close>

definition restore :: "(string \<Rightarrow> nat \<times> string) \<Rightarrow> string list \<Rightarrow> shell_env \<Rightarrow> nat \<times> action list" where
  "restore rd args env =
     (if arg1 args = [] then usage env
      else
        let backup_file = arg1 args
        in if echo_status env warning \<noteq> 0 then (echo_status env warning, [Echo warning])
           else (case rd (stdin env) of
                   (st, confirm) \<Rightarrow>
                     if st \<noteq> 0 then (st, [Echo warning, Read_confirm])
                     else if confirm \<noteq> ''yes'' then (0, [Echo warning, Read_confirm])
                     else (case restore_steps backup_file env of
                             (s, t) \<Rightarrow> (s, [Echo warning, Read_confirm] @ t))))"

text \<open>An environment in which every command succeeds, reading the given input; and the
  same with standard output closed.\<close>

definition ok_env :: "string \<Rightarrow> shell_env" where
  "ok_env inp = \<lparr>stdin = inp, echo_status = (\<lambda>_. 0), ls_status = 0, cd_ok = True,
                 down_status = 0, rm_status = 0, tar_status = 0, up_status = 0\<rparr>"

definition closed_stdout_env :: "string \<Rightarrow> shell_env" where
  "closed_stdout_env inp = (ok_env inp)\<lparr>echo_status := (\<lambda>_. 1), ls_status := 2\<rparr>"


section \<open>Schema statements: \<^verbatim>\<open>ops/migrations/001_initial_schema.cypher\<close> and \<^verbatim>\<open>schema/init-schema.cypher\<close>\<close>

text \<open>
  A schema rule is a uniqueness constraint or an index: its name, the label of the
  pattern (\<^verbatim>\<open>FOR (p:Project)\<close>; none for \<^verbatim>\<open>FOR (e)\<close>) and the properties it is on.
  The schema is the list of rules in force.
\<close>

datatype rule_kind = Uniqueness | Range_index | Fulltext_index

record schema_rule =
  sr_name :: string
  sr_kind :: rule_kind
  sr_label :: "string option"
  sr_props :: "string list"

type_synonym schema = "schema_rule list"

text \<open>\<^verbatim>\<open>CREATE ... name [IF NOT EXISTS] FOR ... \<close>, with the flag, and the two
  \<^verbatim>\<open>SHOW\<close> statements that end the migration.\<close>

datatype ddl =
    Create schema_rule bool
  | Show_constraints
  | Show_indexes

datatype ddl_error =
    Rejected ddl
  | Already_exists string
  | Name_taken string

text \<open>Two rules are equivalent when they are of the same kind on the same label and
  properties.\<close>

definition same_schema :: "schema_rule \<Rightarrow> schema_rule \<Rightarrow> bool" where
  "same_schema a b \<longleftrightarrow> sr_kind a = sr_kind b \<and> sr_label a = sr_label b \<and> sr_props a = sr_props b"

text \<open>The rule, or an equivalent one, or one of its kind with its name, is in force.\<close>

definition in_force :: "schema_rule \<Rightarrow> schema \<Rightarrow> bool" where
  "in_force r s \<longleftrightarrow> list_ex (\<lambda>x. sr_kind x = sr_kind r \<and> (sr_name x = sr_name r \<or> same_schema x r)) s"

definition name_used :: "string \<Rightarrow> schema \<Rightarrow> bool" where
  "name_used n s \<longleftrightarrow> list_ex (\<lambda>x. sr_name x = n) s"

text \<open>
  One statement against the server.  \<open>accepts\<close> tells which statements the server takes
  at all (its grammar and edition, stored data that breaks a constraint); a statement
  it does not take fails whatever the schema.  With \<^verbatim>\<open>IF NOT EXISTS\<close> a rule that is in force already is left alone and
  nothing fails; without the flag the same statement fails.  Names are shared by
  constraints and indexes, so a name used by a rule of another kind fails either way.
\<close>

definition exec_ddl :: "(ddl \<Rightarrow> bool) \<Rightarrow> ddl \<Rightarrow> schema \<Rightarrow> ddl_error + schema" where
  "exec_ddl accepts d s =
     (if \<not> accepts d then Inl (Rejected d)
      else case d of
        Create r if_not_exists \<Rightarrow>
          if in_force r s then (if if_not_exists then Inr s else Inl (Already_exists (sr_name r)))
          else if name_used (sr_name r) s then Inl (Name_taken (sr_name r))
          else Inr (s @ [r])
      | Show_constraints \<Rightarrow> Inr s
      | Show_indexes \<Rightarrow> Inr s)"

text \<open>
  A script is piped into \<^verbatim>\<open>cypher-shell\<close> (\<^verbatim>\<open>make apply-schema\<close>, the migrations'
  README): every statement commits by itself and the first failure ends the run.  The
  result is the schema reached and the failure, if any.
\<close>

fun apply_script :: "(ddl \<Rightarrow> bool) \<Rightarrow> ddl list \<Rightarrow> schema \<Rightarrow> schema \<times> ddl_error option" where
  "apply_script accepts [] s = (s, None)"
| "apply_script accepts (d # ds) s =
     (case exec_ddl accepts d s of
        Inl e \<Rightarrow> (s, Some e)
      | Inr s' \<Rightarrow> apply_script accepts ds s')"

definition uses_if_not_exists :: "ddl \<Rightarrow> bool" where
  "uses_if_not_exists d = (case d of Create r flag \<Rightarrow> flag | _ \<Rightarrow> True)"

definition unique_on :: "string \<Rightarrow> string \<Rightarrow> string \<Rightarrow> ddl" where
  "unique_on name label p =
     Create \<lparr>sr_name = name, sr_kind = Uniqueness, sr_label = Some label, sr_props = [p]\<rparr> True"

definition index_on :: "string \<Rightarrow> string option \<Rightarrow> string \<Rightarrow> ddl" where
  "index_on name label p =
     Create \<lparr>sr_name = name, sr_kind = Range_index, sr_label = label, sr_props = [p]\<rparr> True"

text \<open>\<^verbatim>\<open>ops/migrations/001_initial_schema.cypher\<close>, statement by statement.\<close>

definition migration_001 :: "ddl list" where
  "migration_001 =
    [unique_on ''project_name'' ''Project'' ''name'',
     unique_on ''project_id'' ''Project'' ''id'',
     index_on ''project_status'' (Some ''Project'') ''status'',
     index_on ''entity_tags'' None ''tags'',
     Show_constraints,
     Show_indexes]"

text \<open>The constraints and indexes of \<^verbatim>\<open>schema/init-schema.cypher\<close>, statement by
  statement.\<close>

definition init_schema :: "ddl list" where
  "init_schema =
    [unique_on ''project_name'' ''Project'' ''name'',
     unique_on ''project_id'' ''Project'' ''id'',
     index_on ''project_status'' (Some ''Project'') ''status'',
     index_on ''project_criticality'' (Some ''Project'') ''criticality'',
     unique_on ''config_name'' ''Configuration'' ''name'',
     index_on ''config_type'' (Some ''Configuration'') ''config_type'',
     unique_on ''tool_name'' ''Tool'' ''name'',
     index_on ''tool_status'' (Some ''Tool'') ''status'',
     unique_on ''pattern_name'' ''Pattern'' ''name'',
     index_on ''pattern_tags'' (Some ''Pattern'') ''tags'',
     unique_on ''doc_name'' ''Documentation'' ''name'',
     Create \<lparr>sr_name = ''faq_content'', sr_kind = Fulltext_index, sr_label = Some ''Documentation'',
             sr_props = [''content'', ''keywords'']\<rparr> True,
     index_on ''entity_last_updated'' None ''last_updated'',
     index_on ''entity_created_at'' None ''created_at'',
     index_on ''entity_tags'' None ''tags'']"

text \<open>A server that takes every statement, and one that takes no index without a
  label.\<close>

definition accepts_all :: "ddl \<Rightarrow> bool" where
  "accepts_all d = True"

definition accepts_labelled :: "ddl \<Rightarrow> bool" where
  "accepts_labelled d = (case d of Create r flag \<Rightarrow> sr_label r \<noteq> None | _ \<Rightarrow> True)"


section \<open>The ingestion engine, from its specification\<close>

text \<open>
  The engine that ingests records (\<^verbatim>\<open>ingestion/etl_engine.py\<close> with its configuration
  schema and extractor) is not among the sources; the documents only list it.  It is
  modelled here from the specification, section by section, as one sequential run
  against a store that commits every transaction.  The worker pool, retries with
  backoff and timeouts are matters of scheduling and time and are left out.
\<close>

subsection \<open>Data model\<close>

text \<open>Modelled from the spec: the raw value of a record field, missing with the engine
  (section 4.1, "mapping of field name to raw value"); a timestamp is what
  \<^verbatim>\<open>parse_timestamp\<close> produces.\<close>

datatype raw =
    RStr string
  | RNum real
  | RTime int
  | RList "raw list"

text \<open>Modelled from the spec: the Entity of the data model (section 3), missing with the
  engine: its type and id (the natural key), its set of tags and its scalar attributes
  (name, status, criticality, timestamps, type-specific ones) by name.\<close>

record entity =
  e_type :: string
  e_id :: string
  e_tags :: "string set"
  e_attrs :: "(string \<times> raw) list"

text \<open>Modelled from the spec: the Relation of the data model (section 3), missing with
  the engine, with the observation counter and the provenance (source identifier and
  extraction method) of each observation.\<close>

record relation =
  rel_type :: string
  source_id :: string
  target_id :: string
  valid_from :: int
  valid_to :: "int option"
  observed_at :: int
  confidence :: real
  provenance :: "(string \<times> string) list"
  observations :: nat

text \<open>Modelled from the spec: the store shared by ingestion and retrieval (section 2),
  as the missing engines see it: the entities and relations committed so far.\<close>

record kg_store =
  entities :: "entity list"
  relations :: "relation list"

text \<open>Modelled from the spec: the two kinds of record the missing engine ingests, an
  entity or a relation candidate (sections 4.1 and 4.2).\<close>

datatype record_kind = Entity_record | Relation_record

text \<open>Modelled from the spec: a record pulled from the source by the missing engine: its
  kind and its fields (section 4.1).\<close>

record raw_record =
  raw_kind :: record_kind
  raw_fields :: "(string \<times> raw) list"

text \<open>Modelled from the spec: the transforms of a mapping configuration of the missing
  validation layer (section 4.1): "one of a fixed set (lowercase, parse_timestamp,
  parse_json, identity)".\<close>

datatype transform = Lowercase | Parse_timestamp | Parse_json | Identity

text \<open>Modelled from the spec: the mapping configuration of the missing validation layer,
  \<^verbatim>\<open>{source_field: {target_property, transform}}\<close> (section 4.1).\<close>

type_synonym mapping = "(string \<times> string \<times> transform) list"

text \<open>Modelled from the spec: what the specification leaves to collaborators of the
  missing engine: how a timestamp and a JSON text are parsed, and the extraction layer
  (section 4.2) that expands a record into further candidates.\<close>

record collaborators =
  parse_timestamp :: "string \<Rightarrow> int option"
  parse_json :: "string \<Rightarrow> raw option"
  extractor :: "raw_record \<Rightarrow> raw_record list"

subsection \<open>Validation\<close>

text \<open>Modelled from the spec: the transform \<^verbatim>\<open>lowercase\<close> of the missing validation
  layer, on ASCII letters.\<close>

definition lower_char :: "char \<Rightarrow> char" where
  "lower_char c =
     (if (65::nat) \<le> of_char c \<and> of_char c \<le> (90::nat) then char_of (of_char c + (32::nat)) else c)"

text \<open>Modelled from the spec: applying a transform of the missing validation layer to a
  raw value; \<open>None\<close> when the transform does not succeed (section 4.1, "transform
  succeeds").\<close>

fun apply_transform :: "collaborators \<Rightarrow> transform \<Rightarrow> raw \<Rightarrow> raw option" where
  "apply_transform c Identity v = Some v"
| "apply_transform c Lowercase (RStr s) = Some (RStr (map lower_char s))"
| "apply_transform c Parse_timestamp (RStr s) = map_option RTime (parse_timestamp c s)"
| "apply_transform c Parse_json (RStr s) = parse_json c s"
| "apply_transform c _ _ = None"

text \<open>Modelled from the spec: the mapping of the missing validation layer applied to the
  fields of a record (section 4.1): every mapped source field that is present gives its
  target property; a transform that fails rejects the record.\<close>

fun apply_mapping :: "collaborators \<Rightarrow> mapping \<Rightarrow> (string \<times> raw) list \<Rightarrow> string + (string \<times> raw) list" where
  "apply_mapping c [] fs = Inr []"
| "apply_mapping c ((source_field, target_property, t) # m) fs =
     (case map_of fs source_field of
        None \<Rightarrow> apply_mapping c m fs
      | Some v \<Rightarrow>
          (case apply_transform c t v of
             None \<Rightarrow> Inl (''transform_failed:'' @ source_field)
           | Some v' \<Rightarrow>
               (case apply_mapping c m fs of
                  Inl reason \<Rightarrow> Inl reason
                | Inr ps \<Rightarrow> Inr ((target_property, v') # ps))))"

text \<open>Modelled from the spec: a raw value read as a string by the missing validation
  layer, for the elements of \<open>tags\<close>.\<close>

fun string_of :: "raw \<Rightarrow> string option" where
  "string_of (RStr s) = Some s"
| "string_of _ = None"

text \<open>Modelled from the spec: "tags coercible to a set of strings" in the missing
  validation layer (section 4.1): absent tags are the empty set, a list of strings is
  its set.\<close>

fun tags_of :: "raw option \<Rightarrow> string set option" where
  "tags_of None = Some {}"
| "tags_of (Some (RList xs)) = map_option set (those (map string_of xs))"
| "tags_of (Some _) = None"

text \<open>Modelled from the spec: the "scalar attributes" of an entity (section 3), as the
  missing validation layer tells them: anything but a list.\<close>

fun is_scalar :: "raw \<Rightarrow> bool" where
  "is_scalar (RList _) = False"
| "is_scalar _ = True"

text \<open>Modelled from the spec: a property read as a string by the missing validation
  layer (section 4.1, "resulting attribute types match the entity contract"); \<open>None\<close>
  when it is absent or of another type.\<close>

definition get_str :: "(string \<times> raw) list \<Rightarrow> string \<Rightarrow> string option" where
  "get_str ps k = (case map_of ps k of Some (RStr s) \<Rightarrow> Some s | _ \<Rightarrow> None)"

text \<open>Modelled from the spec: a property read as a timestamp by the missing validation
  layer (section 4.1); \<open>None\<close> when it is absent or of another type.\<close>

definition get_time :: "(string \<times> raw) list \<Rightarrow> string \<Rightarrow> int option" where
  "get_time ps k = (case map_of ps k of Some (RTime t) \<Rightarrow> Some t | _ \<Rightarrow> None)"

text \<open>Modelled from the spec: a property read as a number by the missing validation
  layer (section 4.1, "\<open>confidence\<close> numeric"); \<open>None\<close> when it is absent or of another
  type.\<close>

definition get_num :: "(string \<times> raw) list \<Rightarrow> string \<Rightarrow> real option" where
  "get_num ps k = (case map_of ps k of Some (RNum x) \<Rightarrow> Some x | _ \<Rightarrow> None)"

text \<open>Modelled from the spec: the entity contract of the missing validation layer
  (sections 3 and 4.1): \<open>type\<close> and \<open>id\<close> are required strings, \<open>tags\<close> a set of
  strings, every other attribute a scalar.\<close>

definition entity_contract :: "(string \<times> raw) list \<Rightarrow> string + entity" where
  "entity_contract ps =
     (case get_str ps ''type'' of None \<Rightarrow> Inl ''missing_required_field:type'' | Some t \<Rightarrow>
      case get_str ps ''id'' of None \<Rightarrow> Inl ''missing_required_field:id'' | Some i \<Rightarrow>
      case tags_of (map_of ps ''tags'') of None \<Rightarrow> Inl ''type_mismatch:tags'' | Some ts \<Rightarrow>
        let attrs = filter (\<lambda>(k, v). k \<notin> {''type'', ''id'', ''tags''}) ps
        in if list_all (\<lambda>(k, v). is_scalar v) attrs
           then Inr \<lparr>e_type = t, e_id = i, e_tags = ts, e_attrs = attrs\<rparr>
           else Inl ''type_mismatch:attribute'')"

text \<open>Modelled from the spec: the attributes the missing validation layer requires of a
  relation (section 3): type, both endpoint ids, \<open>valid_from\<close>, \<open>observed_at\<close>, the
  confidence, and the provenance (source identifier and extraction method).\<close>

definition required_fields ::
  "(string \<times> raw) list \<Rightarrow> (string \<times> string \<times> string \<times> int \<times> int \<times> real \<times> string \<times> string) option" where
  "required_fields ps =
     Option.bind (get_str ps ''type'') (\<lambda>t.
     Option.bind (get_str ps ''source_id'') (\<lambda>a.
     Option.bind (get_str ps ''target_id'') (\<lambda>b.
     Option.bind (get_time ps ''valid_from'') (\<lambda>vf.
     Option.bind (get_time ps ''observed_at'') (\<lambda>ob.
     Option.bind (get_num ps ''confidence'') (\<lambda>cf.
     Option.bind (get_str ps ''source'') (\<lambda>so.
     Option.bind (get_str ps ''method'') (\<lambda>me.
       Some (t, a, b, vf, ob, cf, so, me)))))))))"

text \<open>Modelled from the spec: the relation contract of the missing validation layer
  (sections 3 and 4.1): the required attributes are present and typed, the confidence
  lies in [0,1], \<open>valid_to\<close> may be absent, and \<open>valid_from \<le> valid_to\<close> whenever
  \<open>valid_to\<close> is set.  The relation that results is the first observation of its
  tuple.\<close>

definition relation_contract :: "(string \<times> raw) list \<Rightarrow> string + relation" where
  "relation_contract ps =
     (case required_fields ps of
        None \<Rightarrow> Inl ''missing_or_mistyped_field''
      | Some (t, a, b, vf, ob, cf, so, me) \<Rightarrow>
          if \<not> (0 \<le> cf \<and> cf \<le> 1) then Inl ''confidence_out_of_range''
          else if map_of ps ''valid_to'' \<noteq> None \<and> get_time ps ''valid_to'' = None
          then Inl ''type_mismatch:valid_to''
          else if (case get_time ps ''valid_to'' of None \<Rightarrow> False | Some vt \<Rightarrow> vt < vf)
          then Inl ''valid_to_before_valid_from''
          else Inr \<lparr>rel_type = t, source_id = a, target_id = b, valid_from = vf,
                    valid_to = get_time ps ''valid_to'', observed_at = ob, confidence = cf,
                    provenance = [(so, me)], observations = 1\<rparr>)"

text \<open>Modelled from the spec: the ValidatedRecord that the missing \<^verbatim>\<open>validate\<close>
  returns (section 4.1): an entity or a relation that meets its contract.\<close>

datatype validated = VEntity entity | VRelation relation

text \<open>Modelled from the spec: \<^verbatim>\<open>validate(record, mapping) -> ValidatedRecord |
  RejectionReason\<close> of the missing validation layer (section 4.1).  It has no side
  effect and never raises.\<close>

definition validate :: "collaborators \<Rightarrow> raw_record \<Rightarrow> mapping \<Rightarrow> string + validated" where
  "validate c r m =
     (case apply_mapping c m (raw_fields r) of
        Inl reason \<Rightarrow> Inl reason
      | Inr ps \<Rightarrow>
          (case raw_kind r of
             Entity_record \<Rightarrow> map_sum (\<lambda>x. x) VEntity (entity_contract ps)
           | Relation_record \<Rightarrow> map_sum (\<lambda>x. x) VRelation (relation_contract ps)))"

subsection \<open>Upsert by natural key\<close>

text \<open>Modelled from the spec: the natural key of an entity in the missing engine
  (glossary; section 4.3 step 4): \<open>(type, id)\<close>.\<close>

definition entity_key :: "entity \<Rightarrow> string \<times> string" where
  "entity_key e = (e_type e, e_id e)"

text \<open>Modelled from the spec: the natural key of a relation in the missing engine
  (glossary; section 4.3 step 4): \<open>(type, source_id, target_id)\<close>.\<close>

definition relation_key :: "relation \<Rightarrow> string \<times> string \<times> string" where
  "relation_key r = (rel_type r, source_id r, target_id r)"

text \<open>Modelled from the spec: the attribute merge of an entity upsert in the missing
  engine (section 3, "merges attributes, never duplicates the node"; section 8, tags
  \<open>{a,b}\<close> and \<open>{a,c}\<close> merge to \<open>{a,b,c}\<close>): tags are united, a scalar of the new
  record replaces the stored one of that name, the other stored scalars stay.\<close>

definition merge_entity :: "entity \<Rightarrow> entity \<Rightarrow> entity" where
  "merge_entity new old =
     old\<lparr>e_tags := e_tags old \<union> e_tags new,
         e_attrs := e_attrs new @ filter (\<lambda>(k, v). k \<notin> fst ` set (e_attrs new)) (e_attrs old)\<rparr>"

text \<open>Modelled from the spec: the bookkeeping of a re-observed relation in the missing
  engine (section 3): each re-observation "updates \<open>observed_at\<close>, may raise
  \<open>confidence\<close> (never lowers it below the prior maximum), and increments an
  observation counter"; the provenance of the observation is appended (lifecycle:
  "attribute merge + provenance append").\<close>

definition merge_relation :: "relation \<Rightarrow> relation \<Rightarrow> relation" where
  "merge_relation new old =
     old\<lparr>valid_from := valid_from new,
         valid_to := valid_to new,
         observed_at := observed_at new,
         confidence := max (confidence old) (confidence new),
         provenance := provenance old @ provenance new,
         observations := Suc (observations old)\<rparr>"

text \<open>Modelled from the spec: the outcome of one record in the missing engine (section
  4.3; the report counts accepted, merged and rejected records).\<close>

datatype outcome = Created | Merged | Rejected string

text \<open>Modelled from the spec: upsert of an entity by natural key in the missing engine
  (section 4.3 step 4): "if found, merge attributes [...]; if not found, create".\<close>

definition upsert_entity :: "entity \<Rightarrow> kg_store \<Rightarrow> outcome \<times> kg_store" where
  "upsert_entity e s =
     (if list_ex (\<lambda>x. entity_key x = entity_key e) (entities s)
      then (Merged, s\<lparr>entities := map (\<lambda>x. if entity_key x = entity_key e then merge_entity e x else x)
                                       (entities s)\<rparr>)
      else (Created, s\<lparr>entities := entities s @ [e]\<rparr>))"

text \<open>Modelled from the spec: an entity with the given id is in the store, the test the
  missing engine needs for section 3, "both endpoints must exist before the edge is
  created".\<close>

definition endpoint_exists :: "kg_store \<Rightarrow> string \<Rightarrow> bool" where
  "endpoint_exists s i = list_ex (\<lambda>e. e_id e = i) (entities s)"

text \<open>Modelled from the spec: upsert of a relation by natural key in the missing engine
  (section 4.3 step 4 with the invariants of section 3): a tuple already stored
  accumulates the observation; a new tuple is created only between existing endpoints,
  and is refused otherwise.\<close>

definition upsert_relation :: "relation \<Rightarrow> kg_store \<Rightarrow> outcome \<times> kg_store" where
  "upsert_relation r s =
     (if list_ex (\<lambda>x. relation_key x = relation_key r) (relations s)
      then (Merged, s\<lparr>relations := map (\<lambda>x. if relation_key x = relation_key r then merge_relation r x else x)
                                         (relations s)\<rparr>)
      else if endpoint_exists s (source_id r) \<and> endpoint_exists s (target_id r)
      then (Created, s\<lparr>relations := relations s @ [r]\<rparr>)
      else (Rejected ''endpoint_missing'', s))"

text \<open>Modelled from the spec: the write of one validated record by the missing engine
  (section 4.3 step 4), an entity or a relation upsert.\<close>

fun write_record :: "validated \<Rightarrow> kg_store \<Rightarrow> outcome \<times> kg_store" where
  "write_record (VEntity e) s = upsert_entity e s"
| "write_record (VRelation r) s = upsert_relation r s"

subsection \<open>A job\<close>

text \<open>Modelled from the spec: one batch of the missing engine, a single store transaction
  upserting every record of the batch (section 4.3 step 4).  Each record comes with its
  identity, so that its outcome is attributable (step 1).\<close>

fun write_batch :: "(nat \<times> validated) list \<Rightarrow> kg_store \<Rightarrow> (nat \<times> outcome) list \<times> kg_store" where
  "write_batch [] s = ([], s)"
| "write_batch ((i, v) # vs) s =
     (case write_record v s of (out, s1) \<Rightarrow>
        case write_batch vs s1 of (outs, s2) \<Rightarrow> ((i, out) # outs, s2))"

text \<open>Modelled from the spec: the batches of a job of the missing engine, one after the
  other (section 4.3 steps 3 and 6).\<close>

fun write_batches :: "(nat \<times> validated) list list \<Rightarrow> kg_store \<Rightarrow> (nat \<times> outcome) list \<times> kg_store" where
  "write_batches [] s = ([], s)"
| "write_batches (b # bs) s =
     (case write_batch b s of (outs, s1) \<Rightarrow>
        case write_batches bs s1 of (outs', s2) \<Rightarrow> (outs @ outs', s2))"

text \<open>Modelled from the spec: grouping the valid records into batches of the configured
  size in the missing engine (section 4.3 step 3).\<close>

function chunks :: "nat \<Rightarrow> 'a list \<Rightarrow> 'a list list" where
  "chunks n xs = (if n = 0 \<or> xs = [] then [] else take n xs # chunks n (drop n xs))"
  by pat_completeness auto
termination
  by (relation "measure (\<lambda>(n, xs). length xs)") auto

declare chunks.simps [simp del]

text \<open>Modelled from the spec: the job configuration of the missing engine (section 6):
  source, mapping, batch size, worker concurrency, whether extraction is enabled,
  timeout.\<close>

record job_config =
  source :: "raw_record list"
  mapping :: mapping
  batch_size :: nat
  concurrency :: nat
  extraction_enabled :: bool
  timeout :: nat

text \<open>Modelled from the spec: the job report of the missing engine (sections 3 and 6):
  accepted and merged counts and the rejected records with their reasons.  The
  wall-clock duration is not modelled.\<close>

record job_report =
  accepted :: nat
  merged :: nat
  rejected :: "(nat \<times> string) list"

text \<open>Modelled from the spec: steps 1 and 2 of section 4.3 in the missing engine: the
  records in source order, each followed by the candidates extracted from it when
  extraction is enabled, numbered by position.\<close>

definition pulled :: "collaborators \<Rightarrow> job_config \<Rightarrow> (nat \<times> raw_record) list" where
  "pulled c j =
     (let rs = (if extraction_enabled j then concat (map (\<lambda>r. r # extractor c r) (source j))
                else source j)
      in zip [0 ..< length rs] rs)"

text \<open>Modelled from the spec: step 2 of section 4.3 in the missing engine: every pulled
  record validated against the mapping of the job.\<close>

definition validated_records :: "collaborators \<Rightarrow> job_config \<Rightarrow> (nat \<times> (string + validated)) list" where
  "validated_records c j = map (\<lambda>(i, r). (i, validate c r (mapping j))) (pulled c j)"

text \<open>Modelled from the spec: the valid records, which the missing engine groups into
  batches (section 4.3 step 3; section 5, "validation rejects [...] are filtered out
  before the transaction is formed").\<close>

fun valid_of :: "(nat \<times> (string + validated)) list \<Rightarrow> (nat \<times> validated) list" where
  "valid_of [] = []"
| "valid_of ((i, Inr v) # xs) = (i, v) # valid_of xs"
| "valid_of ((i, Inl reason) # xs) = valid_of xs"

text \<open>Modelled from the spec: the validation rejects with their reasons, which the
  missing engine reports (section 4.3 step 6, section 7).\<close>

fun rejects_of :: "(nat \<times> (string + validated)) list \<Rightarrow> (nat \<times> string) list" where
  "rejects_of [] = []"
| "rejects_of ((i, Inl reason) # xs) = (i, reason) # rejects_of xs"
| "rejects_of ((i, Inr v) # xs) = rejects_of xs"

text \<open>Modelled from the spec: the records refused at write time, which the missing
  engine reports with the others (section 4.3 step 6).\<close>

fun write_rejects :: "(nat \<times> outcome) list \<Rightarrow> (nat \<times> string) list" where
  "write_rejects [] = []"
| "write_rejects ((i, Rejected reason) # xs) = (i, reason) # write_rejects xs"
| "write_rejects ((i, _) # xs) = write_rejects xs"

text \<open>Modelled from the spec: the failure of the missing \<^verbatim>\<open>ingest\<close> that section 7
  lets through to the caller: a malformed configuration.\<close>

datatype ingest_error = Configuration_error

text \<open>Modelled from the spec: \<^verbatim>\<open>ingest(jobConfig) -> JobReport\<close> of the missing engine
  (section 4.3).  A malformed configuration is fatal at job start and nothing is
  attempted (section 7); here, a batch size of zero.\<close>

definition ingest :: "collaborators \<Rightarrow> job_config \<Rightarrow> kg_store \<Rightarrow> ingest_error + (job_report \<times> kg_store)" where
  "ingest c j s =
     (if batch_size j = 0 then Inl Configuration_error
      else
        let vr = validated_records c j;
            (outs, s') = write_batches (chunks (batch_size j) (valid_of vr)) s
        in Inr (\<lparr>accepted = length (filter (\<lambda>(i, out). out = Created \<or> out = Merged) outs),
                 merged = length (filter (\<lambda>(i, out). out = Merged) outs),
                 rejected = rejects_of vr @ write_rejects outs\<rparr>, s'))"

subsection \<open>Properties and inputs of the scenarios\<close>

text \<open>What validation lets through: a relation with its confidence in [0,1].\<close>

fun well_formed :: "validated \<Rightarrow> bool" where
  "well_formed (VEntity e) = True"
| "well_formed (VRelation r) = (0 \<le> confidence r \<and> confidence r \<le> 1)"

text \<open>Every stored relation has its confidence in [0,1].\<close>

definition confidence_bounded :: "kg_store \<Rightarrow> bool" where
  "confidence_bounded s = list_all (\<lambda>r. 0 \<le> confidence r \<and> confidence r \<le> 1) (relations s)"





definition no_collaborators :: collaborators where
  "no_collaborators = \<lparr>parse_timestamp = (\<lambda>s. None), parse_json = (\<lambda>s. None), extractor = (\<lambda>r. [])\<rparr>"


text \<open>A store with a project and a tool, and a job that observes a dependency between
  them with a given confidence at a given time.\<close>

definition two_entities :: kg_store where
  "two_entities =
     \<lparr>entities = [\<lparr>e_type = ''Project'', e_id = ''p1'', e_tags = {}, e_attrs = []\<rparr>,
                  \<lparr>e_type = ''Tool'', e_id = ''t1'', e_tags = {}, e_attrs = []\<rparr>],
      relations = []\<rparr>"

definition dependency_record :: "real \<Rightarrow> int \<Rightarrow> raw_record" where
  "dependency_record cf ts =
     \<lparr>raw_kind = Relation_record,
      raw_fields = [(''type'', RStr ''DEPENDS_ON_CRITICAL''), (''source_id'', RStr ''p1''),
                    (''target_id'', RStr ''t1''), (''valid_from'', RTime 0), (''observed_at'', RTime ts),
                    (''confidence'', RNum cf), (''source'', RStr ''doc-1''), (''method'', RStr ''primary'')]\<rparr>"

definition relation_mapping :: mapping where
  "relation_mapping =
     [(''type'', ''type'', Identity), (''source_id'', ''source_id'', Identity),
      (''target_id'', ''target_id'', Identity), (''valid_from'', ''valid_from'', Identity),
      (''observed_at'', ''observed_at'', Identity), (''confidence'', ''confidence'', Identity),
      (''source'', ''source'', Identity), (''method'', ''method'', Identity)]"

definition dependency_job :: "real \<Rightarrow> int \<Rightarrow> job_config" where
  "dependency_job cf ts =
     \<lparr>source = [dependency_record cf ts], mapping = relation_mapping, batch_size = 1000,
      concurrency = 32, extraction_enabled = False, timeout = 60\<rparr>"

definition dependency :: "real \<Rightarrow> int \<Rightarrow> relation" where
  "dependency cf ts =
     \<lparr>rel_type = ''DEPENDS_ON_CRITICAL'', source_id = ''p1'', target_id = ''t1'', valid_from = 0,
      valid_to = None, observed_at = ts, confidence = cf, provenance = [(''doc-1'', ''primary'')],
      observations = 1\<rparr>"


section \<open>The retrieval engine, from its specification\<close>

text \<open>
  The retrieval engine (\<^verbatim>\<open>ingestion/graphrag_retrieval.py\<close>) is not among the sources
  either.  It is modelled from section 4.4 of the specification as a function of the
  store; a caller's timeout is a matter of time and is left out.
\<close>

text \<open>Modelled from the spec: the Subgraph Result of the missing engine (sections 3 and
  6): nodes, edges, the
  truncation flag and the optional reason note.\<close>

record subgraph_result =
  sg_nodes :: "entity list"
  sg_edges :: "relation list"
  sg_truncated :: bool
  sg_reason :: "string option"

text \<open>Modelled from the spec: the query of a retrieval call with its mode (section 4.4):
  seed entity ids for k-hop, free text for semantic, a pair of entity ids for path.\<close>

datatype retrieval_query =
    K_hop "string list"
  | Semantic string
  | Path string string

text \<open>Modelled from the spec: what section 4.4 and the design notes leave pluggable in
  semantic mode: the similarity score of an entity for a text, and the number of seeds
  taken (default 5).\<close>

record seed_selection =
  similarity :: "string \<Rightarrow> entity \<Rightarrow> real"
  seed_count :: nat

text \<open>Modelled from the spec: "lexicographic \<open>id\<close>", the last tie-break of section
  4.4, on the codes of the characters.\<close>

fun lex_le :: "string \<Rightarrow> string \<Rightarrow> bool" where
  "lex_le [] ys = True"
| "lex_le (x # xs) [] = False"
| "lex_le (x # xs) (y # ys) =
     ((of_char x :: nat) < of_char y \<or> ((of_char x :: nat) = of_char y \<and> lex_le xs ys))"

text \<open>Modelled from the spec: the tie-break order of section 4.4 between two frontier
  nodes and the relations that reach them: "higher \<open>confidence\<close> first, then more
  recent \<open>observed_at\<close>, then lexicographic \<open>id\<close>".\<close>

definition ranks_before :: "relation \<times> entity \<Rightarrow> relation \<times> entity \<Rightarrow> bool" where
  "ranks_before x y \<longleftrightarrow>
     confidence (fst x) > confidence (fst y)
     \<or> (confidence (fst x) = confidence (fst y)
         \<and> (observed_at (fst x) > observed_at (fst y)
             \<or> (observed_at (fst x) = observed_at (fst y) \<and> lex_le (e_id (snd x)) (e_id (snd y)))))"

text \<open>Modelled from the spec: one candidate put at its place in the tie-break order,
  for the deterministic admission of the missing engine (section 4.4).\<close>

fun insert_ranked :: "relation \<times> entity \<Rightarrow> (relation \<times> entity) list \<Rightarrow> (relation \<times> entity) list" where
  "insert_ranked x [] = [x]"
| "insert_ranked x (y # ys) = (if ranks_before x y then x # y # ys else y # insert_ranked x ys)"

text \<open>Modelled from the spec: the candidates of a frontier in tie-break order, as the
  missing engine admits them (section 4.4).\<close>

definition rank :: "(relation \<times> entity) list \<Rightarrow> (relation \<times> entity) list" where
  "rank xs = foldr insert_ranked xs []"

text \<open>Modelled from the spec: each node is admitted once: of the ranked candidates only
  the first for each entity counts.\<close>

fun first_of_each :: "entity list \<Rightarrow> (string \<times> string) list \<Rightarrow> entity list" where
  "first_of_each [] seen = []"
| "first_of_each (e # es) seen =
     (if entity_key e \<in> set seen then first_of_each es seen
      else e # first_of_each es (entity_key e # seen))"

text \<open>Modelled from the spec: the frontier of one breadth-first level (section 4.4): the
  entities not visited yet that a relation leaving the current level points to, in
  tie-break order.\<close>

definition frontier :: "kg_store \<Rightarrow> (string \<times> string) list \<Rightarrow> entity list \<Rightarrow> entity list" where
  "frontier s visited level =
     first_of_each
       (map snd (rank (concat (map (\<lambda>r. map (\<lambda>e. (r, e))
                                              (filter (\<lambda>e. e_id e = target_id r) (entities s)))
                                  (filter (\<lambda>r. source_id r \<in> e_id ` set level) (relations s))))))
       visited"

text \<open>Modelled from the spec: breadth-first expansion bounded by \<open>depth\<close> and the node
  budget (section 4.4).  A frontier larger than the budget that is left is admitted in
  tie-break order up to the budget, and the result is marked truncated.  The seeds are
  where the expansion starts; the nodes admitted are the ones it reaches (section 8:
  from seed \<open>p1\<close> with budget 1 the result "contains only the 0.9-confidence
  neighbor").\<close>

fun expand_levels ::
  "kg_store \<Rightarrow> nat \<Rightarrow> nat \<Rightarrow> (string \<times> string) list \<Rightarrow> entity list \<Rightarrow> entity list \<Rightarrow> entity list \<times> bool" where
  "expand_levels s 0 budget visited level admitted = (admitted, False)"
| "expand_levels s (Suc d) budget visited level admitted =
     (let cands = frontier s visited level
      in if budget < length cands then (admitted @ take budget cands, True)
         else expand_levels s d (budget - length cands) (visited @ map entity_key cands) cands
                (admitted @ cands))"

text \<open>Modelled from the spec: "Edges are included only if both endpoints are admitted"
  (section 4.4).\<close>

definition edges_between :: "kg_store \<Rightarrow> entity list \<Rightarrow> relation list" where
  "edges_between s ns =
     filter (\<lambda>r. source_id r \<in> e_id ` set ns \<and> target_id r \<in> e_id ` set ns) (relations s)"

text \<open>Modelled from the spec: k-hop mode of the missing engine (section 4.4): expansion
  from the seeds, the edges between admitted nodes, the truncation flag.\<close>

definition k_hop :: "kg_store \<Rightarrow> entity list \<Rightarrow> nat \<Rightarrow> nat \<Rightarrow> subgraph_result" where
  "k_hop s seeds depth node_budget =
     (case expand_levels s depth node_budget (map entity_key seeds) seeds [] of
        (ns, was_cut) \<Rightarrow>
          \<lparr>sg_nodes = ns, sg_edges = edges_between s ns, sg_truncated = was_cut, sg_reason = None\<rparr>)"

text \<open>Modelled from the spec: one scored entity put at its place, higher similarity
  first, for the seed selection of the missing engine (section 4.4).\<close>

fun insert_scored :: "real \<times> entity \<Rightarrow> (real \<times> entity) list \<Rightarrow> (real \<times> entity) list" where
  "insert_scored x [] = [x]"
| "insert_scored x (y # ys) = (if fst x > fst y then x # y # ys else y # insert_scored x ys)"

text \<open>Modelled from the spec: seed selection of semantic mode in the missing engine
  (section 4.4): the top-N entities by similarity to the text.\<close>

definition semantic_seeds :: "seed_selection \<Rightarrow> kg_store \<Rightarrow> string \<Rightarrow> entity list" where
  "semantic_seeds sel s phrase =
     take (seed_count sel)
       (map snd (foldr insert_scored (map (\<lambda>e. (similarity sel phrase e, e)) (entities s)) []))"

text \<open>Modelled from the spec: the first success of a list of attempts, for the search
  of the missing engine's path mode (section 4.4).\<close>

fun first_some :: "'a option list \<Rightarrow> 'a option" where
  "first_some [] = None"
| "first_some (None # xs) = first_some xs"
| "first_some (Some x # xs) = Some x"

text \<open>Modelled from the spec: bounded path search of the missing engine (section 4.4,
  path mode): a path from \<open>a\<close> to \<open>b\<close> of at most \<open>k\<close> relations, each followed from
  its source to its target.\<close>

fun find_path :: "relation list \<Rightarrow> nat \<Rightarrow> string \<Rightarrow> string \<Rightarrow> relation list option" where
  "find_path E 0 a b = (if a = b then Some [] else None)"
| "find_path E (Suc k) a b =
     (if a = b then Some []
      else first_some (map (\<lambda>r. map_option (Cons r) (find_path E k (target_id r) b))
                           (filter (\<lambda>r. source_id r = a) E)))"

text \<open>Modelled from the spec: "bounded shortest-path search up to \<open>depth\<close> hops": the
  bound grows from 0 to \<open>depth\<close>; the first bound under which a path is found gives a
  shortest one.\<close>

definition shortest_path :: "relation list \<Rightarrow> nat \<Rightarrow> string \<Rightarrow> string \<Rightarrow> relation list option" where
  "shortest_path E depth a b = first_some (map (\<lambda>k. find_path E k a b) [0 ..< Suc depth])"

text \<open>Modelled from the spec: what path mode of the missing engine returns when there
  is no path (section 4.4): "an empty node/edge set (not an error) with
  \<open>truncated=false\<close> and a reason note".\<close>

definition no_path_result :: subgraph_result where
  "no_path_result =
     \<lparr>sg_nodes = [], sg_edges = [], sg_truncated = False, sg_reason = Some ''no_path_within_depth''\<rparr>"

text \<open>Modelled from the spec: path mode of the missing engine (section 4.4): between two
  entities of the store, the nodes and edges of a shortest path of at most \<open>depth\<close>
  hops, or the empty result with its reason.\<close>

definition path_mode :: "kg_store \<Rightarrow> string \<Rightarrow> string \<Rightarrow> nat \<Rightarrow> subgraph_result" where
  "path_mode s a b depth =
     (if endpoint_exists s a \<and> endpoint_exists s b then
        (case shortest_path (relations s) depth a b of
           None \<Rightarrow> no_path_result
         | Some p \<Rightarrow>
             \<lparr>sg_nodes = filter (\<lambda>e. e_id e \<in> set (a # map target_id p)) (entities s),
              sg_edges = p, sg_truncated = False, sg_reason = None\<rparr>)
      else no_path_result)"

text \<open>Modelled from the spec: \<^verbatim>\<open>retrieve(query, mode, depth, nodeBudget) ->
  SubgraphResult\<close> (section 4.4).  The store is handed back as it was received.\<close>

definition retrieve ::
  "seed_selection \<Rightarrow> retrieval_query \<Rightarrow> nat \<Rightarrow> nat \<Rightarrow> kg_store \<Rightarrow> subgraph_result \<times> kg_store" where
  "retrieve sel q depth node_budget s =
     (case q of
        K_hop ids \<Rightarrow> (k_hop s (filter (\<lambda>e. e_id e \<in> set ids) (entities s)) depth node_budget, s)
      | Semantic phrase \<Rightarrow> (k_hop s (semantic_seeds sel s phrase) depth node_budget, s)
      | Path a b \<Rightarrow> (path_mode s a b depth, s))"

text \<open>A path of the store, as the specification speaks of it: relations chained from \<open>a\<close> to
  \<open>b\<close>.\<close>

fun is_path :: "relation list \<Rightarrow> string \<Rightarrow> relation list \<Rightarrow> string \<Rightarrow> bool" where
  "is_path E a [] b = (a = b)"
| "is_path E a (r # rs) b = (r \<in> set E \<and> source_id r = a \<and> is_path E (target_id r) rs b)"

definition connected_within :: "kg_store \<Rightarrow> nat \<Rightarrow> string \<Rightarrow> string \<Rightarrow> bool" where
  "connected_within s depth a b \<longleftrightarrow> (\<exists>p. is_path (relations s) a p b \<and> length p \<le> depth)"

text \<open>The scenario of section 8: \<open>p1\<close> with two outgoing relations of confidence 0.9 and
  0.4.\<close>

definition plain_entity :: "string \<Rightarrow> string \<Rightarrow> entity" where
  "plain_entity t i = \<lparr>e_type = t, e_id = i, e_tags = {}, e_attrs = []\<rparr>"

definition observed :: "string \<Rightarrow> string \<Rightarrow> real \<Rightarrow> relation" where
  "observed a b cf =
     \<lparr>rel_type = ''DEPENDS_ON_CRITICAL'', source_id = a, target_id = b, valid_from = 0,
      valid_to = None, observed_at = 0, confidence = cf, provenance = [(''doc-1'', ''primary'')],
      observations = 1\<rparr>"

definition budget_store :: kg_store where
  "budget_store =
     \<lparr>entities = [plain_entity ''Project'' ''p1'', plain_entity ''Tool'' ''t1'', plain_entity ''Tool'' ''t2''],
      relations = [observed ''p1'' ''t1'' (4 / 10), observed ''p1'' ''t2'' (9 / 10)]\<rparr>"

definition lexical :: seed_selection where
  "lexical = \<lparr>similarity = (\<lambda>phrase e. if e_id e = phrase then 1 else 0), seed_count = 5\<rparr>"


section \<open>The dependency query returns the nodes on paths of one to three hops\<close>




















section \<open>The restore script changes nothing before it is confirmed\<close>

lemma errexit_trace: "set (snd (errexit cs)) \<subseteq> fst ` set cs"
  by (induction cs rule: errexit.induct) (auto simp: split_def)

lemma errexit_all_ok: "list_all (\<lambda>c. snd c = 0) cs \<Longrightarrow> errexit cs = (0, map fst cs)"
  by (induction cs rule: errexit.induct) auto

lemma usage_trace: "\<not> list_ex mutating (snd (usage env))"
proof -
  have "set (snd (usage env))
      \<subseteq> {Echo ''Usage: ./restore.sh <backup-file.tar.gz>'', Echo ''Available backups:'',
          Ls_backups, Echo ''  No backups found''}"
    using errexit_trace
      [of "[(Echo ''Usage: ./restore.sh <backup-file.tar.gz>'',
             echo_status env ''Usage: ./restore.sh <backup-file.tar.gz>''),
            (Echo ''Available backups:'', echo_status env ''Available backups:''),
            (Ls_backups, 0)]
           @ (if ls_status env \<noteq> 0
              then [(Echo ''  No backups found'', echo_status env ''  No backups found'')]
              else [])"]
    by (auto simp: usage_def split_def split: if_splits)
  then show ?thesis by (auto simp: list_ex_iff)
qed

lemma usage_status: "fst (usage env) \<noteq> 0"
  by (simp add: usage_def split_def)

lemma usage_status_1: "(\<forall>m. echo_status env m = 0) \<Longrightarrow> fst (usage env) = 1"
  by (simp add: usage_def errexit_all_ok)

text \<open>Before the confirmation nothing acts, whatever \<^verbatim>\<open>read\<close> does.\<close>

lemma nothing_before_confirmation:
  assumes "\<not> (arg1 args \<noteq> [] \<and> echo_status env warning = 0 \<and> rd (stdin env) = (0, ''yes''))"
  shows "\<not> list_ex mutating (snd (restore rd args env))"
proof (cases "arg1 args = []")
  case True
  then show ?thesis using usage_trace by (simp add: restore_def)
next
  case False
  with assms show ?thesis
    by (cases "rd (stdin env)") (auto simp: restore_def Let_def)
qed

lemma restore_status:
  assumes "arg1 args \<noteq> []"
  shows "echo_status env warning \<noteq> 0 \<Longrightarrow> fst (restore rd args env) = echo_status env warning"
    and "echo_status env warning = 0 \<Longrightarrow> fst (rd (stdin env)) \<noteq> 0 \<Longrightarrow>
           fst (restore rd args env) = fst (rd (stdin env))"
    and "echo_status env warning = 0 \<Longrightarrow> fst (rd (stdin env)) = 0 \<Longrightarrow>
           snd (rd (stdin env)) \<noteq> ''yes'' \<Longrightarrow> fst (restore rd args env) = 0"
  using assms by (simp_all add: restore_def Let_def split_def)

text \<open>Once confirmed, the script does act: the guard is what keeps the data.\<close>

lemma restore_steps_mutating:
  "echo_status env ''Stopping Neo4j...'' = 0 \<Longrightarrow>
   cd_ok env \<or> echo_status env ''Removing existing data...'' = 0 \<Longrightarrow>
   list_ex mutating (snd (restore_steps f env))"
  by (auto simp: restore_steps_def Let_def split_def)

lemma restore_confirmed:
  assumes "arg1 args \<noteq> []" and "echo_status env warning = 0" and "rd (stdin env) = (0, ''yes'')"
    and "echo_status env ''Stopping Neo4j...'' = 0"
    and "cd_ok env \<or> echo_status env ''Removing existing data...'' = 0"
  shows "list_ex mutating (snd (restore rd args env))"
  using assms restore_steps_mutating [of env "arg1 args"]
  by (simp add: restore_def split_def Let_def)

text \<open>
  C10, as the script has it.  The \<^verbatim>\<open>read\<close> builtin is any function from the input
  to a status and a value.  No \<^verbatim>\<open>docker compose\<close>, \<^verbatim>\<open>rm\<close> or \<^verbatim>\<open>tar\<close> command runs
  unless the script has a non-empty first argument, the warning was written and
  \<^verbatim>\<open>read\<close> succeeded with the value \<^verbatim>\<open>yes\<close>.  Without an argument the exit status is
  not 0, and it is 1 when every \<^verbatim>\<open>echo\<close> succeeds.  With an argument the script
  ends with the status of the warning \<^verbatim>\<open>echo\<close> when that fails, with the status of
  \<^verbatim>\<open>read\<close> when that fails, and with 0 when \<^verbatim>\<open>read\<close> succeeds with a value other
  than \<^verbatim>\<open>yes\<close>.
\<close>

theorem restore_guard:
  "(\<not> (arg1 args \<noteq> [] \<and> echo_status env warning = 0 \<and> rd (stdin env) = (0, ''yes'')) \<longrightarrow>
      \<not> list_ex mutating (snd (restore rd args env)))
   \<and> (arg1 args = [] \<longrightarrow> fst (restore rd args env) \<noteq> 0)
   \<and> (arg1 args = [] \<and> (\<forall>m. echo_status env m = 0) \<longrightarrow> fst (restore rd args env) = 1)
   \<and> (arg1 args \<noteq> [] \<and> echo_status env warning \<noteq> 0 \<longrightarrow>
        fst (restore rd args env) = echo_status env warning)
   \<and> (arg1 args \<noteq> [] \<and> echo_status env warning = 0 \<and> fst (rd (stdin env)) \<noteq> 0 \<longrightarrow>
        fst (restore rd args env) = fst (rd (stdin env)))
   \<and> (arg1 args \<noteq> [] \<and> echo_status env warning = 0 \<and> fst (rd (stdin env)) = 0
        \<and> snd (rd (stdin env)) \<noteq> ''yes'' \<longrightarrow>
        fst (restore rd args env) = 0)"
proof -
  have "arg1 args = [] \<Longrightarrow> fst (restore rd args env) \<noteq> 0"
    using usage_status by (simp add: restore_def)
  moreover have "arg1 args = [] \<Longrightarrow> (\<forall>m. echo_status env m = 0) \<Longrightarrow> fst (restore rd args env) = 1"
    using usage_status_1 by (simp add: restore_def)
  ultimately show ?thesis
    using nothing_before_confirmation [of args env rd] restore_status [of args env rd] by blast
qed

text \<open>What bash's \<^verbatim>\<open>read\<close> makes of some lines: blanks around the word go, a backslash
  goes, an escaped NUL ends the value; without a newline the status is 1.\<close>

lemma read_examples:
  "bash_read (''no'' @ [CHR 0x0A]) = (0, ''no'')"
  "bash_read [] = (1, [])"
  "bash_read ''no'' = (1, ''no'')"
  "bash_read (''yes '' @ [CHR 0x0A]) = (0, ''yes'')"
  "bash_read (''yes'' @ [CHR 0x0A]) = (0, ''yes'')"
  "bash_read (''  y'' @ [CHR 0x5C] @ ''es'' @ [CHR 0x0A]) = (0, ''yes'')"
  "bash_read (''yes '' @ [CHR 0x5C] @ '' '' @ [CHR 0x0A]) = (0, ''yes'')"
  "bash_read (''yes'' @ [CHR 0x5C, CHR 0x00] @ ''zzz'' @ [CHR 0x0A]) = (0, ''yes'')"
  "bash_read (''yes'' @ [CHR 0x5C] @ '' '' @ [CHR 0x0A]) = (0, ''yes '')"
  "bash_read (''yes please'' @ [CHR 0x0A]) = (0, ''yes please'')"
  by code_simp+

theorem restore_guard_witness:
  "\<not> list_ex mutating (snd (restore bash_read [] (ok_env (''yes'' @ [CHR 0x0A]))))
   \<and> fst (restore bash_read [] (ok_env (''yes'' @ [CHR 0x0A]))) = 1
   \<and> fst (restore bash_read [] (closed_stdout_env (''yes'' @ [CHR 0x0A]))) \<noteq> 0
   \<and> bash_read (''no'' @ [CHR 0x0A]) = (0, ''no'')
   \<and> fst (restore bash_read [''backups/kg-backup.tar.gz''] (ok_env (''no'' @ [CHR 0x0A]))) = 0
   \<and> \<not> list_ex mutating (snd (restore bash_read [''backups/kg-backup.tar.gz''] (ok_env (''no'' @ [CHR 0x0A]))))
   \<and> bash_read [] = (1, [])
   \<and> fst (restore bash_read [''backups/kg-backup.tar.gz''] (ok_env [])) = 1
   \<and> \<not> list_ex mutating (snd (restore bash_read [''backups/kg-backup.tar.gz''] (ok_env [])))
   \<and> fst (restore bash_read [''backups/kg-backup.tar.gz''] (closed_stdout_env (''yes'' @ [CHR 0x0A]))) = 1
   \<and> \<not> list_ex mutating (snd (restore bash_read [''backups/kg-backup.tar.gz''] (closed_stdout_env (''yes'' @ [CHR 0x0A]))))"
proof -
  let ?f = "[''backups/kg-backup.tar.gz'']"
  let ?yes = "''yes'' @ [CHR 0x0A]" and ?no = "''no'' @ [CHR 0x0A]"
  have a: "arg1 [] = []" and b: "arg1 ?f \<noteq> []" by (simp_all add: arg1_def)
  have e: "\<And>i m. echo_status (ok_env i) m = 0" "\<And>i. stdin (ok_env i) = i"
    by (simp_all add: ok_env_def)
  have c: "\<And>i. echo_status (closed_stdout_env i) warning = 1"
    by (simp add: closed_stdout_env_def ok_env_def)
  note g1 = restore_guard [of "[]" "ok_env ?yes" bash_read]
  note g2 = restore_guard [of "[]" "closed_stdout_env ?yes" bash_read]
  note g3 = restore_guard [of ?f "ok_env ?no" bash_read]
  note g4 = restore_guard [of ?f "ok_env []" bash_read]
  note g5 = restore_guard [of ?f "closed_stdout_env ?yes" bash_read]
  from g1 a e have 1: "\<not> list_ex mutating (snd (restore bash_read [] (ok_env ?yes)))"
    "fst (restore bash_read [] (ok_env ?yes)) = 1" by blast+
  from g2 a have 2: "fst (restore bash_read [] (closed_stdout_env ?yes)) \<noteq> 0" by blast
  from g3 b e read_examples(1) have 3: "fst (restore bash_read ?f (ok_env ?no)) = 0"
    "\<not> list_ex mutating (snd (restore bash_read ?f (ok_env ?no)))" by simp_all
  from g4 b e read_examples(2) have 4: "fst (restore bash_read ?f (ok_env [])) = 1"
    "\<not> list_ex mutating (snd (restore bash_read ?f (ok_env [])))" by simp_all
  from g5 b c have 5: "fst (restore bash_read ?f (closed_stdout_env ?yes)) = 1"
    "\<not> list_ex mutating (snd (restore bash_read ?f (closed_stdout_env ?yes)))" by simp_all
  from 1 2 3 4 5 read_examples(1,2) show ?thesis by blast
qed

text \<open>
  The claim as worded fails.  The line \<^verbatim>\<open>yes\<close> followed by a blank is not the string
  \<^verbatim>\<open>yes\<close>, yet \<^verbatim>\<open>read\<close> strips the blank and the restore runs.  With the input
  \<^verbatim>\<open>no\<close> not ended by a newline the script stops with status 1, not 0; and so it
  does, at the warning, when standard output is closed.
\<close>

theorem restore_guard_counterexample:
  "''yes '' \<noteq> ''yes''
   \<and> list_ex mutating (snd (restore bash_read [''backups/kg-backup.tar.gz''] (ok_env (''yes '' @ [CHR 0x0A]))))
   \<and> ''no'' \<noteq> ''yes''
   \<and> fst (restore bash_read [''backups/kg-backup.tar.gz''] (ok_env ''no'')) = 1
   \<and> fst (restore bash_read [''backups/kg-backup.tar.gz''] (closed_stdout_env (''no'' @ [CHR 0x0A]))) = 1"
proof -
  let ?f = "[''backups/kg-backup.tar.gz'']"
  have b: "arg1 ?f \<noteq> []" by (simp add: arg1_def)
  have e: "\<And>i m. echo_status (ok_env i) m = 0" "\<And>i. stdin (ok_env i) = i" "\<And>i. cd_ok (ok_env i)"
    by (simp_all add: ok_env_def)
  have c: "\<And>i. echo_status (closed_stdout_env i) warning = 1"
    by (simp add: closed_stdout_env_def ok_env_def)
  have r: "bash_read (stdin (ok_env (''yes '' @ [CHR 0x0A]))) = (0, ''yes'')"
    using read_examples(4) by (simp add: e)
  have 1: "list_ex mutating (snd (restore bash_read ?f (ok_env (''yes '' @ [CHR 0x0A]))))"
    by (rule restore_confirmed [where rd = bash_read, OF b _ r]) (simp_all add: e)
  have 2: "fst (restore bash_read ?f (ok_env ''no'')) = 1"
    using restore_status(2) [OF b, of "ok_env ''no''" bash_read] e read_examples(3) by simp
  have 3: "fst (restore bash_read ?f (closed_stdout_env (''no'' @ [CHR 0x0A]))) = 1"
    using restore_status(1) [OF b, of "closed_stdout_env (''no'' @ [CHR 0x0A])" bash_read] c by simp
  from 1 2 3 show ?thesis by simp
qed


section \<open>Applying a schema script again changes nothing\<close>

lemma exec_ddl_grows:
  "exec_ddl accepts d s = Inr s' \<Longrightarrow> set s \<subseteq> set s'"
  by (auto simp: exec_ddl_def split: if_splits ddl.splits)

lemma apply_script_grows:
  "set s \<subseteq> set (fst (apply_script accepts ds s))"
proof (induction ds arbitrary: s)
  case Nil
  show ?case by simp
next
  case (Cons d ds)
  show ?case
  proof (cases "exec_ddl accepts d s")
    case (Inl e)
    then show ?thesis by simp
  next
    case (Inr s')
    with Cons [of s'] exec_ddl_grows [OF Inr] show ?thesis by auto
  qed
qed

lemma in_force_mono: "in_force r s \<Longrightarrow> set s \<subseteq> set s' \<Longrightarrow> in_force r s'"
  unfolding in_force_def list_ex_iff by blast

text \<open>A flagged statement that went through once is a no-op on every larger schema.\<close>

lemma exec_ddl_again:
  assumes "exec_ddl accepts d s = Inr s'" and "uses_if_not_exists d" and "set s' \<subseteq> set s''"
  shows "exec_ddl accepts d s'' = Inr s''"
proof (cases d)
  case (Create r flag)
  with assms(2) have flag by (simp add: uses_if_not_exists_def)
  from assms(1) Create have acc: "accepts d" by (auto simp: exec_ddl_def split: if_splits)
  have "in_force r s'"
  proof (cases "in_force r s")
    case True
    with assms(1) Create \<open>flag\<close> acc show ?thesis by (simp add: exec_ddl_def)
  next
    case False
    with assms(1) Create acc have "s' = s @ [r]"
      by (auto simp: exec_ddl_def split: if_splits)
    then show ?thesis by (simp add: in_force_def same_schema_def)
  qed
  then have "in_force r s''" using assms(3) by (rule in_force_mono)
  with Create \<open>flag\<close> acc show ?thesis by (simp add: exec_ddl_def)
next
  case Show_constraints
  with assms(1) show ?thesis by (auto simp: exec_ddl_def split: if_splits)
next
  case Show_indexes
  with assms(1) show ?thesis by (auto simp: exec_ddl_def split: if_splits)
qed

lemma apply_script_again:
  assumes "list_all uses_if_not_exists ds"
  shows "apply_script accepts ds (fst (apply_script accepts ds s)) = apply_script accepts ds s"
  using assms
proof (induction ds arbitrary: s)
  case Nil
  show ?case by simp
next
  case (Cons d ds)
  show ?case
  proof (cases "exec_ddl accepts d s")
    case (Inl e)
    then show ?thesis by simp
  next
    case (Inr s')
    let ?s1 = "fst (apply_script accepts ds s')"
    from Cons.prems have d: "uses_if_not_exists d" and ds: "list_all uses_if_not_exists ds" by simp_all
    have "set s' \<subseteq> set ?s1" by (rule apply_script_grows)
    from exec_ddl_again [OF Inr d this] have "exec_ddl accepts d ?s1 = Inr ?s1" .
    with Inr Cons.IH [OF ds, of s'] show ?thesis by simp
  qed
qed

lemma exec_ddl_flagged_error:
  "uses_if_not_exists d \<Longrightarrow> exec_ddl accepts d s \<noteq> Inl (Already_exists n)"
  by (auto simp: exec_ddl_def uses_if_not_exists_def split: ddl.splits)

lemma apply_script_no_already_exists:
  "list_all uses_if_not_exists ds \<Longrightarrow> snd (apply_script accepts ds s) \<noteq> Some (Already_exists n)"
proof (induction ds arbitrary: s)
  case Nil
  show ?case by simp
next
  case (Cons d ds)
  then show ?case
    using exec_ddl_flagged_error [of d accepts s n]
    by (cases "exec_ddl accepts d s") auto
qed

lemma scripts_flagged:
  "list_all uses_if_not_exists migration_001" "list_all uses_if_not_exists init_schema"
  by (simp_all add: migration_001_def init_schema_def uses_if_not_exists_def unique_on_def index_on_def)

text \<open>A statement without the flag does fail when applied again.\<close>

lemma unflagged_fails_again:
  "exec_ddl accepts (Create r False) s = Inr s' \<Longrightarrow>
     exec_ddl accepts (Create r False) s' = Inl (Already_exists (sr_name r))"
  by (auto simp: exec_ddl_def in_force_def same_schema_def split: if_splits)

text \<open>
  C9.  Every constraint- and index-creating statement of migration 001 and of the initial
  schema carries \<^verbatim>\<open>IF NOT EXISTS\<close>.  Whatever the schema was, and whichever statements
  the server takes, applying either script to the schema it has produced gives that
  schema again, with the same outcome as the first run, and no run ever fails because a
  constraint or index exists already.
\<close>

theorem schema_scripts_idempotent:
  "list_all uses_if_not_exists migration_001
   \<and> list_all uses_if_not_exists init_schema
   \<and> apply_script accepts migration_001 (fst (apply_script accepts migration_001 s))
       = apply_script accepts migration_001 s
   \<and> apply_script accepts init_schema (fst (apply_script accepts init_schema s))
       = apply_script accepts init_schema s
   \<and> snd (apply_script accepts migration_001 s) \<noteq> Some (Already_exists n)
   \<and> snd (apply_script accepts init_schema s) \<noteq> Some (Already_exists n)"
  using scripts_flagged apply_script_again apply_script_no_already_exists by blast

lemma migration_from_empty:
  "snd (apply_script accepts_all migration_001 []) = None"
  "map sr_name (fst (apply_script accepts_all migration_001 []))
     = [''project_name'', ''project_id'', ''project_status'', ''entity_tags'']"
  "length (fst (apply_script accepts_all init_schema [])) = 15"
  "snd (apply_script accepts_all init_schema []) = None"
  "map sr_name (fst (apply_script accepts_labelled migration_001 []))
     = [''project_name'', ''project_id'', ''project_status'']"
  by code_simp+

theorem schema_scripts_idempotent_witness:
  "snd (apply_script accepts_all migration_001 []) = None
   \<and> map sr_name (fst (apply_script accepts_all migration_001 []))
       = [''project_name'', ''project_id'', ''project_status'', ''entity_tags'']
   \<and> apply_script accepts_all migration_001 (fst (apply_script accepts_all migration_001 []))
       = apply_script accepts_all migration_001 []
   \<and> length (fst (apply_script accepts_all init_schema [])) = 15
   \<and> apply_script accepts_all init_schema (fst (apply_script accepts_all init_schema []))
       = apply_script accepts_all init_schema []
   \<and> snd (apply_script accepts_all init_schema (fst (apply_script accepts_all init_schema []))) = None
   \<and> map sr_name (fst (apply_script accepts_labelled migration_001 []))
       = [''project_name'', ''project_id'', ''project_status'']
   \<and> apply_script accepts_labelled migration_001 (fst (apply_script accepts_labelled migration_001 []))
       = apply_script accepts_labelled migration_001 []"
proof -
  note t = schema_scripts_idempotent [of accepts_all "[]" "''project_name''"]
  note u = schema_scripts_idempotent [of accepts_labelled "[]" "''project_name''"]
  from t have 1: "apply_script accepts_all migration_001 (fst (apply_script accepts_all migration_001 []))
       = apply_script accepts_all migration_001 []" by blast
  from t have 2: "apply_script accepts_all init_schema (fst (apply_script accepts_all init_schema []))
       = apply_script accepts_all init_schema []" by blast
  from u have 3: "apply_script accepts_labelled migration_001 (fst (apply_script accepts_labelled migration_001 []))
       = apply_script accepts_labelled migration_001 []" by blast
  from 1 2 3 migration_from_empty show ?thesis by simp
qed


section \<open>The queries of the GraphQL server read only\<close>

text \<open>The four statements of \<^verbatim>\<open>api/graphql/index.js\<close> are made of reading clauses,
  which hand the graph on as they found it.\<close>

lemma reading_clauses:
  "fst (cy_match_node lbl ps t) = fst t"
  "fst (cy_where P t) = fst t"
  "fst (cy_unwind f t) = fst t"
  "fst (cy_return h t) = fst t"
  "fst (cy_return_distinct h t) = fst t"
  "fst (cy_match_path lbl ps ty lo hi t) = fst t"
  by (simp_all add: cy_match_node_def cy_where_def cy_unwind_def cy_return_def
      cy_return_distinct_def cy_match_path_def split_def)

lemma statements_read_only:
  "fst (projectsByStatus status g) = g"
  "fst (criticalInfrastructure g) = g"
  "fst (patternsByTag tag g) = g"
  "fst (projectDependencyGraph projectId g) = g"
  by (simp_all add: projectsByStatus_def criticalInfrastructure_def patternsByTag_def
      projectDependencyGraph_def reading_clauses start_tbl_def)

text \<open>A writing clause does not: \<^verbatim>\<open>CREATE\<close> leaves a larger graph.\<close>

lemma create_stmt_writes: "length (nodes (create_stmt ls ps g)) = Suc (length (nodes g))"
  by (simp add: create_stmt_def cy_create_node_def start_tbl_def add_node_def)


section \<open>Ingestion: merging entities, accumulating observations\<close>

lemma chunks_single: "0 < n \<Longrightarrow> chunks n [x] = [[x]]"
  by (subst chunks.simps) (simp add: chunks.simps [of n "[]"])

lemma set_chunks: "b \<in> set (chunks n xs) \<Longrightarrow> set b \<subseteq> set xs"
proof (induction n xs rule: chunks.induct)
  case (1 n xs)
  show ?case
  proof (cases "n = 0 \<or> xs = []")
    case True
    with "1.prems" show ?thesis by (simp add: chunks.simps [of n xs])
  next
    case False
    with "1.prems" have "b = take n xs \<or> b \<in> set (chunks n (drop n xs))"
      by (simp add: chunks.simps [of n xs])
    then show ?thesis
    proof
      assume "b = take n xs"
      then show ?thesis by (auto dest: in_set_takeD)
    next
      assume "b \<in> set (chunks n (drop n xs))"
      from "1.IH" [OF False this] show ?thesis by (auto dest: in_set_dropD)
    qed
  qed
qed

subsection \<open>Entities\<close>










subsection \<open>Relations\<close>

lemma relation_contract_bounded:
  "relation_contract ps = Inr r \<Longrightarrow> 0 \<le> confidence r \<and> confidence r \<le> 1"
  by (auto simp: relation_contract_def split: option.splits if_splits)

lemma validate_well_formed: "validate c r m = Inr v \<Longrightarrow> well_formed v"
  by (auto simp: validate_def map_sum_def dest: relation_contract_bounded
      split: sum.splits record_kind.splits)

lemma valid_of_well_formed:
  "\<forall>(i, x) \<in> set xs. \<forall>v. x = Inr v \<longrightarrow> well_formed v \<Longrightarrow> \<forall>(i, v) \<in> set (valid_of xs). well_formed v"
  by (induction xs rule: valid_of.induct) auto

lemma validated_records_well_formed:
  "\<forall>(i, v) \<in> set (valid_of (validated_records c j)). well_formed v"
  by (rule valid_of_well_formed) (auto simp: validated_records_def dest: validate_well_formed)

lemma merge_relation_bounded:
  "0 \<le> confidence new \<and> confidence new \<le> 1 \<Longrightarrow> 0 \<le> confidence old \<and> confidence old \<le> 1 \<Longrightarrow>
     0 \<le> confidence (merge_relation new old) \<and> confidence (merge_relation new old) \<le> 1"
  by (simp add: merge_relation_def max_def)

lemma write_record_bounded:
  assumes "well_formed v" and "confidence_bounded s"
  shows "confidence_bounded (snd (write_record v s))"
proof (cases v)
  case (VEntity e)
  with assms(2) show ?thesis by (simp add: upsert_entity_def confidence_bounded_def)
next
  case (VRelation r)
  with assms have r: "0 \<le> confidence r \<and> confidence r \<le> 1"
    and s: "\<forall>x \<in> set (relations s). 0 \<le> confidence x \<and> confidence x \<le> 1"
    by (simp_all add: confidence_bounded_def list_all_iff)
  with VRelation show ?thesis
    using merge_relation_bounded [OF r]
    by (auto simp: upsert_relation_def confidence_bounded_def list_all_iff)
qed

lemma write_batch_bounded:
  "\<forall>(i, v) \<in> set vs. well_formed v \<Longrightarrow> confidence_bounded s \<Longrightarrow>
     confidence_bounded (snd (write_batch vs s))"
proof (induction vs arbitrary: s)
  case Nil
  then show ?case by simp
next
  case (Cons x vs)
  obtain i v where x: "x = (i, v)" by (cases x)
  with Cons.prems have "confidence_bounded (snd (write_record v s))"
    by (intro write_record_bounded) auto
  with Cons.IH [of "snd (write_record v s)"] Cons.prems(1) x show ?case
    by (simp add: split_def)
qed

lemma write_batches_bounded:
  "\<forall>b \<in> set bs. \<forall>(i, v) \<in> set b. well_formed v \<Longrightarrow> confidence_bounded s \<Longrightarrow>
     confidence_bounded (snd (write_batches bs s))"
proof (induction bs arbitrary: s)
  case Nil
  then show ?case by simp
next
  case (Cons b bs)
  then have "confidence_bounded (snd (write_batch b s))"
    by (intro write_batch_bounded) auto
  with Cons.IH [of "snd (write_batch b s)"] Cons.prems(1) show ?case
    by (simp add: split_def)
qed

lemma ingest_bounded:
  assumes "ingest c j s = Inr (rep, s')" and "confidence_bounded s"
  shows "confidence_bounded s'"
proof -
  let ?bs = "chunks (batch_size j) (valid_of (validated_records c j))"
  from assms(1) have s': "s' = snd (write_batches ?bs s)"
    by (auto simp: ingest_def Let_def split_def split: if_splits)
  have "\<forall>b \<in> set ?bs. \<forall>(i, v) \<in> set b. well_formed v"
    using validated_records_well_formed [of c j] set_chunks by fastforce
  from write_batches_bounded [OF this assms(2)] s' show ?thesis by simp
qed

lemma upsert_relation_existing:
  assumes "list_ex (\<lambda>x. relation_key x = relation_key v) (relations s)"
  shows "upsert_relation v s
     = (Merged, s\<lparr>relations := map (\<lambda>x. if relation_key x = relation_key v then merge_relation v x else x)
                                     (relations s)\<rparr>)"
  using assms by (simp add: upsert_relation_def)

lemma merge_relation_facts:
  "confidence old \<le> confidence (merge_relation new old)"
  "observed_at (merge_relation new old) = observed_at new"
  "observations (merge_relation new old) = Suc (observations old)"
  "relation_key (merge_relation new old) = relation_key old"
  by (simp_all add: merge_relation_def relation_key_def)

text \<open>
  C2.  If every stored relation has its confidence in [0,1], so has every relation in the
  store after an ingestion run.  When a relation record re-observes a stored tuple
  \<open>(type, source, target)\<close>, the upsert merges: no relation is added, and each stored
  relation of that tuple keeps its tuple, has a confidence no smaller than before, the
  \<open>observed_at\<close> of the new observation, and one observation more.
\<close>

theorem relation_confidence:
  "(ingest c j s = Inr (rep, s') \<and> confidence_bounded s \<longrightarrow> confidence_bounded s')
   \<and> (list_ex (\<lambda>x. relation_key x = relation_key v) (relations t) \<longrightarrow>
        fst (upsert_relation v t) = Merged
        \<and> length (relations (snd (upsert_relation v t))) = length (relations t)
        \<and> (\<forall>i < length (relations t).
             relation_key (relations t ! i) = relation_key v \<longrightarrow>
               confidence (relations t ! i) \<le> confidence (relations (snd (upsert_relation v t)) ! i)
               \<and> observed_at (relations (snd (upsert_relation v t)) ! i) = observed_at v
               \<and> observations (relations (snd (upsert_relation v t)) ! i)
                   = Suc (observations (relations t ! i))
               \<and> relation_key (relations (snd (upsert_relation v t)) ! i) = relation_key v))"
proof (intro conjI impI allI)
  assume "ingest c j s = Inr (rep, s') \<and> confidence_bounded s"
  then show "confidence_bounded s'" using ingest_bounded by blast
next
  assume a: "list_ex (\<lambda>x. relation_key x = relation_key v) (relations t)"
  show "fst (upsert_relation v t) = Merged"
    and "length (relations (snd (upsert_relation v t))) = length (relations t)"
    by (simp_all add: upsert_relation_existing [OF a])
  fix i
  assume "i < length (relations t)" and "relation_key (relations t ! i) = relation_key v"
  then show "confidence (relations t ! i) \<le> confidence (relations (snd (upsert_relation v t)) ! i)"
    and "observed_at (relations (snd (upsert_relation v t)) ! i) = observed_at v"
    and "observations (relations (snd (upsert_relation v t)) ! i) = Suc (observations (relations t ! i))"
    and "relation_key (relations (snd (upsert_relation v t)) ! i) = relation_key v"
    by (simp_all add: upsert_relation_existing [OF a] merge_relation_facts)
qed

lemma dependency_validated:
  "0 \<le> cf \<Longrightarrow> cf \<le> 1 \<Longrightarrow>
     validated_records c (dependency_job cf ts) = [(0, Inr (VRelation (dependency cf ts)))]"
  by (simp add: validated_records_def pulled_def dependency_job_def dependency_record_def
      relation_mapping_def validate_def relation_contract_def required_fields_def
      get_str_def get_time_def get_num_def dependency_def)

lemma ingest_dependency:
  "0 \<le> cf \<Longrightarrow> cf \<le> 1 \<Longrightarrow>
     ingest c (dependency_job cf ts) two_entities
       = Inr (\<lparr>accepted = 1, merged = 0, rejected = []\<rparr>,
              two_entities\<lparr>relations := [dependency cf ts]\<rparr>)"
  by (simp add: ingest_def dependency_validated chunks_single)
     (simp add: dependency_job_def upsert_relation_def two_entities_def endpoint_exists_def
        dependency_def)

lemma dependency_out_of_range:
  "rejected (fst (projr (ingest c (dependency_job (3 / 2) ts) two_entities)))
     = [(0, ''confidence_out_of_range'')]"
  by (simp add: ingest_def validated_records_def pulled_def dependency_job_def dependency_record_def
      relation_mapping_def validate_def relation_contract_def required_fields_def
      get_str_def get_time_def get_num_def chunks.simps [of _ "[]"])

theorem relation_confidence_witness:
  "ingest no_collaborators (dependency_job (4 / 10) 10) two_entities
     = Inr (\<lparr>accepted = 1, merged = 0, rejected = []\<rparr>,
            two_entities\<lparr>relations := [dependency (4 / 10) 10]\<rparr>)
   \<and> confidence_bounded two_entities
   \<and> confidence_bounded (two_entities\<lparr>relations := [dependency (4 / 10) 10]\<rparr>)
   \<and> list_ex (\<lambda>x. relation_key x = relation_key (dependency (2 / 10) 20))
        (relations (two_entities\<lparr>relations := [dependency (9 / 10) 10]\<rparr>))
   \<and> fst (upsert_relation (dependency (2 / 10) 20)
        (two_entities\<lparr>relations := [dependency (9 / 10) 10]\<rparr>)) = Merged
   \<and> relations (snd (upsert_relation (dependency (2 / 10) 20)
        (two_entities\<lparr>relations := [dependency (9 / 10) 10]\<rparr>)))
       = [(dependency (9 / 10) 20)\<lparr>provenance := [(''doc-1'', ''primary''), (''doc-1'', ''primary'')],
                                    observations := 2\<rparr>]"
proof -
  let ?s = "two_entities\<lparr>relations := [dependency (9 / 10) 10]\<rparr>"
  let ?v = "dependency (2 / 10) 20"
  have i: "ingest no_collaborators (dependency_job (4 / 10) 10) two_entities
     = Inr (\<lparr>accepted = 1, merged = 0, rejected = []\<rparr>,
            two_entities\<lparr>relations := [dependency (4 / 10) 10]\<rparr>)"
    by (rule ingest_dependency) simp_all
  have b: "confidence_bounded two_entities"
    by (simp add: confidence_bounded_def two_entities_def)
  from relation_confidence [where c = no_collaborators and j = "dependency_job (4 / 10) 10"
      and s = two_entities and rep = "\<lparr>accepted = 1, merged = 0, rejected = []\<rparr>"
      and s' = "two_entities\<lparr>relations := [dependency (4 / 10) 10]\<rparr>"] i b
  have b': "confidence_bounded (two_entities\<lparr>relations := [dependency (4 / 10) 10]\<rparr>)" by blast
  have k: "list_ex (\<lambda>x. relation_key x = relation_key ?v) (relations ?s)"
    by (simp add: relation_key_def dependency_def)
  from relation_confidence [where v = ?v and t = ?s] k
  have m: "fst (upsert_relation ?v ?s) = Merged" by blast
  have r: "relations (snd (upsert_relation ?v ?s))
       = [(dependency (9 / 10) 20)\<lparr>provenance := [(''doc-1'', ''primary''), (''doc-1'', ''primary'')],
                                    observations := 2\<rparr>]"
    by (simp add: upsert_relation_def relation_key_def dependency_def merge_relation_def)
  from i b b' k m r show ?thesis by blast
qed


section \<open>Retrieval: the path that is not there\<close>

lemma first_some_in: "first_some xs = Some x \<Longrightarrow> Some x \<in> set xs"
  by (induction xs rule: first_some.induct) auto

lemma first_some_found: "Some x \<in> set xs \<Longrightarrow> first_some xs \<noteq> None"
  by (induction xs rule: first_some.induct) auto

lemma find_path_sound:
  "find_path E k a b = Some p \<Longrightarrow> is_path E a p b \<and> length p \<le> k"
proof (induction k arbitrary: a p)
  case 0
  then show ?case by (auto split: if_splits)
next
  case (Suc k)
  show ?case
  proof (cases "a = b")
    case True
    with Suc.prems show ?thesis by simp
  next
    case False
    with Suc.prems have "Some p \<in> set (map (\<lambda>r. map_option (Cons r) (find_path E k (target_id r) b))
                                            (filter (\<lambda>r. source_id r = a) E))"
      by (auto dest: first_some_in)
    then obtain r where r: "r \<in> set E" "source_id r = a"
      and m: "Some p = map_option (Cons r) (find_path E k (target_id r) b)"
      by auto
    then obtain q where q: "find_path E k (target_id r) b = Some q" and p: "p = r # q"
      by (cases "find_path E k (target_id r) b") auto
    from Suc.IH [OF q] r p show ?thesis by simp
  qed
qed

lemma find_path_complete:
  "is_path E a p b \<Longrightarrow> length p \<le> k \<Longrightarrow> find_path E k a b \<noteq> None"
proof (induction k arbitrary: a p)
  case 0
  then show ?case by simp
next
  case (Suc k)
  show ?case
  proof (cases "a = b")
    case True
    then show ?thesis by simp
  next
    case False
    with Suc.prems obtain r rs where p: "p = r # rs" by (cases p) auto
    with Suc.prems have r: "r \<in> set E" "source_id r = a" and rs: "is_path E (target_id r) rs b"
      and l: "length rs \<le> k" by auto
    from Suc.IH [OF rs l] obtain q where "find_path E k (target_id r) b = Some q" by auto
    with r have "Some (r # q) \<in> set (map (\<lambda>r. map_option (Cons r) (find_path E k (target_id r) b))
                                            (filter (\<lambda>r. source_id r = a) E))"
      by force
    from first_some_found [OF this] False show ?thesis by simp
  qed
qed

lemma shortest_path_sound:
  "shortest_path E depth a b = Some p \<Longrightarrow> is_path E a p b \<and> length p \<le> depth"
proof -
  assume "shortest_path E depth a b = Some p"
  then have "Some p \<in> set (map (\<lambda>k. find_path E k a b) [0 ..< Suc depth])"
    unfolding shortest_path_def by (rule first_some_in)
  then obtain k where k: "k < Suc depth" "find_path E k a b = Some p"
    by (auto simp: image_iff simp del: upt_Suc)
  from find_path_sound [OF k(2)] k(1) show ?thesis by simp
qed

lemma shortest_path_complete:
  "is_path E a p b \<Longrightarrow> length p \<le> depth \<Longrightarrow> shortest_path E depth a b \<noteq> None"
proof -
  assume "is_path E a p b" and l: "length p \<le> depth"
  from find_path_complete [OF this] obtain q where "find_path E depth a b = Some q" by auto
  then have "Some q \<in> set (map (\<lambda>k. find_path E k a b) [0 ..< Suc depth])" by force
  from first_some_found [OF this] show ?thesis by (simp add: shortest_path_def)
qed

text \<open>When a path is there and both entities exist, path mode does return it.\<close>

lemma path_mode_finds:
  assumes "connected_within s depth a b" and "endpoint_exists s a" and "endpoint_exists s b"
  shows "sg_reason (path_mode s a b depth) = None \<and> sg_nodes (path_mode s a b depth) \<noteq> []"
proof -
  from assms(1) obtain p where "is_path (relations s) a p b" "length p \<le> depth"
    unfolding connected_within_def by blast
  from shortest_path_complete [OF this] obtain q where q: "shortest_path (relations s) depth a b = Some q"
    by auto
  from assms(2) obtain e where "e \<in> set (entities s)" "e_id e = a"
    unfolding endpoint_exists_def list_ex_iff by blast
  then have "filter (\<lambda>e. e_id e \<in> set (a # map target_id q)) (entities s) \<noteq> []"
    by (auto simp: filter_empty_conv)
  with q assms(2,3) show ?thesis by (simp add: path_mode_def)
qed

text \<open>
  C6.  For every pair of entity ids that no path of at most \<open>depth\<close> relations connects,
  a retrieval in path mode returns, as a result and not as an error, no node, no edge,
  \<open>truncated = false\<close> and the reason \<^verbatim>\<open>no_path_within_depth\<close>.
\<close>

theorem path_mode_absence:
  "\<not> connected_within s depth a b \<Longrightarrow>
     fst (retrieve sel (Path a b) depth node_budget s)
       = \<lparr>sg_nodes = [], sg_edges = [], sg_truncated = False,
          sg_reason = Some ''no_path_within_depth''\<rparr>"
proof -
  assume n: "\<not> connected_within s depth a b"
  have "shortest_path (relations s) depth a b = None"
  proof (rule ccontr)
    assume "shortest_path (relations s) depth a b \<noteq> None"
    then obtain p where "shortest_path (relations s) depth a b = Some p" by auto
    from shortest_path_sound [OF this] n show False unfolding connected_within_def by blast
  qed
  then show ?thesis by (simp add: retrieve_def path_mode_def no_path_result_def)
qed

lemma budget_store_unconnected: "\<not> connected_within budget_store 2 ''t1'' ''p1''"
proof
  assume "connected_within budget_store 2 ''t1'' ''p1''"
  then obtain p where "is_path (relations budget_store) ''t1'' p ''p1''" "length p \<le> 2"
    unfolding connected_within_def by blast
  from shortest_path_complete [OF this]
  show False
    by (simp add: shortest_path_def budget_store_def observed_def numeral_2_eq_2)
qed

theorem path_mode_absence_witness:
  "\<not> connected_within budget_store 2 ''t1'' ''p1''
   \<and> fst (retrieve lexical (Path ''t1'' ''p1'') 2 50 budget_store)
       = \<lparr>sg_nodes = [], sg_edges = [], sg_truncated = False,
          sg_reason = Some ''no_path_within_depth''\<rparr>
   \<and> sg_edges (fst (retrieve lexical (Path ''p1'' ''t1'') 2 50 budget_store))
       = [observed ''p1'' ''t1'' (4 / 10)]"
proof -
  have "sg_edges (fst (retrieve lexical (Path ''p1'' ''t1'') 2 50 budget_store))
       = [observed ''p1'' ''t1'' (4 / 10)]"
    by (simp add: retrieve_def path_mode_def budget_store_def plain_entity_def
     observed_def endpoint_exists_def shortest_path_def numeral_2_eq_2)
  with path_mode_absence [OF budget_store_unconnected, of lexical 50] budget_store_unconnected
  show ?thesis by simp
qed

subsection \<open>The node budget of the expansion\<close>

text \<open>In this model of k-hop expansion the seeds are where the expansion starts and the
  nodes returned are the ones it admits; they never exceed the budget, and the edges
  returned run between returned nodes.\<close>

lemma expand_levels_budget:
  "length (fst (expand_levels s d budget visited level admitted)) \<le> length admitted + budget"
proof (induction d arbitrary: budget visited level admitted)
  case 0
  show ?case by simp
next
  case (Suc d)
  let ?c = "frontier s visited level"
  show ?case
  proof (cases "budget < length ?c")
    case True
    then show ?thesis by (simp add: Let_def)
  next
    case False
    with Suc [of "budget - length ?c" "visited @ map entity_key ?c" ?c "admitted @ ?c"]
    show ?thesis by (simp add: Let_def)
  qed
qed

lemma k_hop_budget: "length (sg_nodes (k_hop s seeds depth node_budget)) \<le> node_budget"
  using expand_levels_budget [of s depth node_budget "map entity_key seeds" seeds "[]"]
  by (simp add: k_hop_def split_def)

lemma k_hop_edges:
  "r \<in> set (sg_edges (k_hop s seeds depth node_budget)) \<Longrightarrow>
     source_id r \<in> e_id ` set (sg_nodes (k_hop s seeds depth node_budget))
     \<and> target_id r \<in> e_id ` set (sg_nodes (k_hop s seeds depth node_budget))"
  by (simp add: k_hop_def split_def edges_between_def)

text \<open>The scenario of section 8 of the specification: from seed \<open>p1\<close> with depth 1 and
  a budget of one node, only the neighbour reached with confidence 0.9 is returned, and
  the result is marked truncated.\<close>

lemma budget_scenario:
  "fst (retrieve lexical (K_hop [''p1'']) 1 1 budget_store)
     = \<lparr>sg_nodes = [plain_entity ''Tool'' ''t2''], sg_edges = [], sg_truncated = True,
        sg_reason = None\<rparr>"
  by (simp add: retrieve_def k_hop_def budget_store_def frontier_def rank_def plain_entity_def
     observed_def ranks_before_def entity_key_def edges_between_def)

text \<open>Every mode hands the store back as it received it.\<close>

lemma retrieve_reads_only: "snd (retrieve sel q depth node_budget s) = s"
  by (cases q) (simp_all add: retrieve_def)

end
